theory Spec2Isabelle
  imports Complex_Main
begin

section \<open>Python values used by the settlement code\<close>

text \<open>
  Every \<open>raise\<close> of the source and every exception of the interpreter that the modelled
  paths can reach is a value of \<open>pyerror\<close>.  \<open>HTTPException\<close> carries the status code
  and the detail string exactly as the source writes them.
\<close>

datatype pyerror =
    HTTPException nat string
  | NameError string
  | AttributeError string
  | ValueError string
  | OverflowError string
  | TypeError string
  | InvalidOperation string
  | IntegrityError string

definition pybind :: "pyerror + 'a \<Rightarrow> ('a \<Rightarrow> pyerror + 'b) \<Rightarrow> pyerror + 'b" where
  \<comment> \<open>sequencing: an exception of the first computation leaves the rest unexecuted\<close>
  "pybind m f = (case m of Inl e \<Rightarrow> Inl e | Inr v \<Rightarrow> f v)"

text \<open>
  \<open>decimal.Decimal\<close> values are modelled as rationals: sums, products and comparisons
  are exact.  The 28-digit context precision of \<open>decimal\<close> and the final \<open>float(...)\<close>
  conversions of the response bodies are not modelled.
\<close>

type_synonym decimal = rat

section \<open>Rubric evaluation\<close>

definition DAILY_TARGET_KG_EQUIV :: decimal where
  "DAILY_TARGET_KG_EQUIV = 1"

definition METRES_PER_KG_EQUIV :: decimal where
  "METRES_PER_KG_EQUIV = 60"

record rubric =
  progress_kg_equiv :: decimal
  target_met :: bool
  weaving_needed_m :: decimal
  combing_needed_kg :: decimal

definition rubric_from_logged :: "decimal \<Rightarrow> decimal \<Rightarrow> rubric" where
  "rubric_from_logged combed_kg woven_m =
     (let progress = combed_kg + (woven_m / METRES_PER_KG_EQUIV);
          target_met = (progress \<ge> DAILY_TARGET_KG_EQUIV);
          weaving_needed =
            (if combed_kg < 1
             then (let w = (1 - combed_kg) * METRES_PER_KG_EQUIV in if w < 0 then 0 else w)
             else 0);
          combing_needed =
            (if woven_m < METRES_PER_KG_EQUIV
             then (let c = (METRES_PER_KG_EQUIV - woven_m) / METRES_PER_KG_EQUIV
                   in if c < 0 then 0 else c)
             else 0)
      in \<lparr> progress_kg_equiv = progress, target_met = target_met,
           weaving_needed_m = weaving_needed, combing_needed_kg = combing_needed \<rparr>)"

section \<open>Calendar dates\<close>

text \<open>
  \<open>datetime.date\<close>: a year, a month and a day of the proleptic Gregorian calendar.
  A \<open>date\<close> object always satisfies \<open>valid_date\<close>; the constructor raises
  \<open>ValueError\<close> otherwise.  Comparison is the comparison of the (year, month, day)
  triples, \<open>toordinal\<close> counts days from 0001-01-01 = 1, and adding a
  \<open>timedelta\<close> of k days moves k days along the calendar, raising
  \<open>OverflowError\<close> when the result leaves 0001-01-01 .. 9999-12-31.
\<close>

record date =
  year :: int
  month :: int
  day :: int

definition is_leap :: "int \<Rightarrow> bool" where
  "is_leap y = (y mod 4 = 0 \<and> (y mod 100 \<noteq> 0 \<or> y mod 400 = 0))"

definition monthrange_last :: "int \<Rightarrow> int \<Rightarrow> int" where
  \<comment> \<open>\<open>calendar.monthrange(y, m)[1]\<close>, the number of days of month m of year y\<close>
  "monthrange_last y m =
     (if m = 2 then (if is_leap y then 29 else 28)
      else if m = 4 \<or> m = 6 \<or> m = 9 \<or> m = 11 then 30 else 31)"

definition wf_date :: "date \<Rightarrow> bool" where
  "wf_date d = (1 \<le> month d \<and> month d \<le> 12 \<and> 1 \<le> day d \<and>
                day d \<le> monthrange_last (year d) (month d))"

definition valid_date :: "date \<Rightarrow> bool" where
  "valid_date d = (1 \<le> year d \<and> year d \<le> 9999 \<and> wf_date d)"

definition mk_date :: "int \<Rightarrow> int \<Rightarrow> int \<Rightarrow> pyerror + date" where
  \<comment> \<open>\<open>date(y, m, d)\<close>\<close>
  "mk_date y m d =
     (let r = \<lparr> year = y, month = m, day = d \<rparr>
      in if valid_date r then Inr r else Inl (ValueError ''date value out of range''))"

definition date_less :: "date \<Rightarrow> date \<Rightarrow> bool" where
  "date_less a b =
     (year a < year b \<or> (year a = year b \<and>
        (month a < month b \<or> (month a = month b \<and> day a < day b))))"

definition date_le :: "date \<Rightarrow> date \<Rightarrow> bool" where
  "date_le a b = (\<not> date_less b a)"

definition days_before_year :: "int \<Rightarrow> int" where
  "days_before_year y = (y - 1) * 365 + (y - 1) div 4 - (y - 1) div 100 + (y - 1) div 400"

definition days_before_month :: "int \<Rightarrow> int \<Rightarrow> int" where
  "days_before_month y m =
     (if m = 1 then 0 else if m = 2 then 31
      else (if is_leap y then 1 else 0) +
        (if m = 3 then 59 else if m = 4 then 90 else if m = 5 then 120
         else if m = 6 then 151 else if m = 7 then 181 else if m = 8 then 212
         else if m = 9 then 243 else if m = 10 then 273 else if m = 11 then 304 else 334))"

definition toordinal :: "date \<Rightarrow> int" where
  "toordinal d = days_before_year (year d) + days_before_month (year d) (month d) + day d"

definition next_day :: "date \<Rightarrow> date" where
  "next_day d =
     (if day d < monthrange_last (year d) (month d) then d\<lparr> day := day d + 1 \<rparr>
      else if month d < 12 then d\<lparr> month := month d + 1, day := 1 \<rparr>
      else d\<lparr> year := year d + 1, month := 1, day := 1 \<rparr>)"

definition prev_day :: "date \<Rightarrow> date" where
  "prev_day d =
     (if 1 < day d then d\<lparr> day := day d - 1 \<rparr>
      else if 1 < month d
        then d\<lparr> month := month d - 1, day := monthrange_last (year d) (month d - 1) \<rparr>
      else d\<lparr> year := year d - 1, month := 12, day := 31 \<rparr>)"

fun days_later :: "nat \<Rightarrow> date \<Rightarrow> date" where
  "days_later 0 d = d"
| "days_later (Suc n) d = days_later n (next_day d)"

fun days_earlier :: "nat \<Rightarrow> date \<Rightarrow> date" where
  "days_earlier 0 d = d"
| "days_earlier (Suc n) d = days_earlier n (prev_day d)"

definition shift_days :: "date \<Rightarrow> int \<Rightarrow> date" where
  "shift_days d k = (if 0 \<le> k then days_later (nat k) d else days_earlier (nat (- k)) d)"

definition date_add :: "date \<Rightarrow> int \<Rightarrow> pyerror + date" where
  \<comment> \<open>\<open>d + timedelta(days=k)\<close>; \<open>d - timedelta(days=k)\<close> is \<open>date_add d (- k)\<close>\<close>
  "date_add d k =
     (let r = shift_days d k
      in if valid_date r then Inr r else Inl (OverflowError ''date value out of range''))"

section \<open>Settlement periods\<close>

definition period_for_worker :: "string \<Rightarrow> date \<Rightarrow> date \<Rightarrow> pyerror + (date \<times> date)" where
  "period_for_worker freq anchor as_of =
     (if freq = ''monthly'' then Inr (as_of\<lparr> day := 1 \<rparr>, as_of)
      else
        let block = (if freq = ''weekly'' then 7 else 14);
            delta_days = toordinal as_of - toordinal anchor
        in if delta_days < 0 then
             (case date_add anchor (block - 1) of
                Inl e \<Rightarrow> Inl e
              | Inr full_end \<Rightarrow>
                  Inr (anchor, if date_less full_end as_of then full_end else as_of))
           else
             let block_index = delta_days div block
             in (case date_add anchor (block_index * block) of
                   Inl e \<Rightarrow> Inl e
                 | Inr start \<Rightarrow>
                     (case date_add start (block - 1) of
                        Inl e \<Rightarrow> Inl e
                      | Inr end0 \<Rightarrow>
                          Inr (start, if date_less as_of end0 then as_of else end0))))"

definition add_month :: "date \<Rightarrow> pyerror + date" where
  "add_month d =
     (let y = year d + (month d div 12);
          m = (month d mod 12) + 1;
          last = monthrange_last y m
      in mk_date y m (min (day d) last))"

definition most_recent_anchor :: "int \<Rightarrow> date \<Rightarrow> pyerror + date" where
  \<comment> \<open>the block of \<open>compute_period\<close> under "find most recent anchor date <= as_of"\<close>
  "most_recent_anchor anchor_dom as_of =
     (let last = monthrange_last (year as_of) (month as_of)
      in (case mk_date (year as_of) (month as_of) (min anchor_dom last) of
            Inl e \<Rightarrow> Inl e
          | Inr cand \<Rightarrow>
              if date_less as_of cand then
                (let y = (if month as_of > 1 then year as_of else year as_of - 1);
                     m = (if month as_of > 1 then month as_of - 1 else 12);
                     last2 = monthrange_last y m
                 in mk_date y m (min anchor_dom last2))
              else Inr cand))"

definition compute_period :: "string \<Rightarrow> date \<Rightarrow> date \<Rightarrow> pyerror + (date \<times> date)" where
  "compute_period payout anchor as_of =
     (if payout = ''weekly'' \<or> payout = ''biweekly'' then
        let days = (if payout = ''weekly'' then 7 else 14);
            delta = toordinal as_of - toordinal anchor;
            start_r =
              (if delta < 0
               then (let blocks = (\<bar>delta\<bar> + days - 1) div days
                     in date_add anchor (- (blocks * days)))
               else (let blocks = delta div days
                     in date_add anchor (blocks * days)))
        in (case start_r of
              Inl e \<Rightarrow> Inl e
            | Inr start \<Rightarrow>
                (case date_add start (days - 1) of
                   Inl e \<Rightarrow> Inl e
                 | Inr end0 \<Rightarrow> Inr (start, end0)))
      else
        let anchor_dom = day anchor
        in (case most_recent_anchor anchor_dom as_of of
              Inl e \<Rightarrow> Inl e
            | Inr start \<Rightarrow>
                (case add_month start of
                   Inl e \<Rightarrow> Inl e
                 | Inr next_anchor \<Rightarrow>
                     (case date_add next_anchor (- 1) of
                        Inl e \<Rightarrow> Inl e
                      | Inr end0 \<Rightarrow> Inr (start, end0)))))"

section \<open>Reference notions for monthly periods\<close>

text \<open>
  The occurrence of an anchor day-of-month in month m of year y, clamped to the last day
  of that month, and the month that follows a given month.  These state what the
  specification calls "the anchor day" of a month; they are not part of the source.
\<close>

definition anchor_day_in :: "int \<Rightarrow> int \<Rightarrow> int \<Rightarrow> date" where
  "anchor_day_in anchor_dom y m =
     \<lparr> year = y, month = m, day = min anchor_dom (monthrange_last y m) \<rparr>"

definition next_month_of :: "int \<Rightarrow> int \<Rightarrow> int \<times> int" where
  "next_month_of y m = (if m = 12 then (y + 1, 1) else (y, m + 1))"

section \<open>Decimal rounding\<close>

text \<open>
  \<open>Decimal.quantize(Decimal("0.01"), rounding=ROUND_HALF_UP)\<close> rounds to two places
  with ties away from zero; \<open>quantize(Decimal("0.01"))\<close> without a rounding argument uses
  the context default \<open>ROUND_HALF_EVEN\<close>, ties to the even neighbour.
\<close>

definition quantize_half_up :: "decimal \<Rightarrow> decimal" where
  "quantize_half_up x =
     (let s = x * 100
      in (if 0 \<le> s then of_int \<lfloor>s + 1 / 2\<rfloor> else - of_int \<lfloor>- s + 1 / 2\<rfloor>) / 100)"

definition quantize_half_even :: "decimal \<Rightarrow> decimal" where
  "quantize_half_even x =
     (let s = x * 100; f = \<lfloor>s\<rfloor>; r = s - of_int f
      in of_int (if r < 1 / 2 then f else if 1 / 2 < r then f + 1
                 else if even f then f else f + 1) / 100)"

section \<open>Stored data\<close>

text \<open>
  The tables the settlement code reads and writes, one record per row and one list per
  table.  Identifiers are UUIDs, modelled as natural numbers.  The schema itself is not
  part of the source; the columns are the ones the SQL statements name.  \<open>task_types\<close>
  is read through two rate columns, \<open>default_rate_ngn\<close> (in \<open>effective_rate\<close>) and
  \<open>rate_ngn_per_unit\<close> (in \<open>decide_task\<close> and \<open>payroll_due\<close>); both are columns of the
  row.  Numeric columns are not null.  \<open>ORDER BY\<close> is not modelled: rows come in storage
  order.
\<close>

type_synonym uuid = nat

record worker =
  w_id :: uuid
  full_name :: string
  payout :: string
  payout_anchor_date :: date
  w_factory_id :: "uuid option"
  is_active :: bool

record task_type =
  tt_id :: uuid
  code :: string
  default_rate_ngn :: decimal
  rate_ngn_per_unit :: decimal

record worker_rate =
  wr_worker_id :: uuid
  wr_task_type_id :: uuid
  rate_ngn :: decimal

record work_day =
  wd_id :: uuid
  wd_worker_id :: uuid
  work_date :: date
  logged_by :: uuid
  is_closed :: bool

record work_task =
  wt_id :: uuid
  work_day_id :: uuid
  task_type_id :: uuid
  quantity :: decimal
  wt_note :: "string option"
  status :: string
  approved_pay_ngn :: decimal
  decided_by :: "uuid option"
  decided_at :: "nat option"
  decision_reason :: "string option"
  paid_run_id :: "uuid option"
  paid_at :: "nat option"
  updated_at :: "nat option"
  updated_by :: "uuid option"

record payroll_run =
  pr_id :: uuid
  pr_as_of :: date
  pr_created_by :: uuid
  pr_note :: "string option"

record payroll_run_item =
  pri_run_id :: uuid
  pri_worker_id :: uuid
  pri_worker_name :: string
  pri_payout :: string
  pri_period_start :: date
  pri_period_end :: date
  pri_approved_total_pay_ngn :: decimal
  pri_approved_combed_kg :: decimal
  pri_approved_woven_m :: decimal

record audit_log =
  actor_id :: uuid
  actor_role :: string
  action :: string
  entity_type :: string
  entity_id :: "uuid option"

record db =
  workers :: "worker list"
  task_types :: "task_type list"
  worker_rates :: "worker_rate list"
  work_days :: "work_day list"
  work_tasks :: "work_task list"
  payroll_runs :: "payroll_run list"
  payroll_run_items :: "payroll_run_item list"
  audit_logs :: "audit_log list"

text \<open>
  \<open>with engine.begin() as conn:\<close> commits when the block ends and rolls back when an
  exception leaves it.  An endpoint is a function from the store to either the exception
  or the updated store with the response; \<open>committed\<close> is the store after the request.
\<close>

definition committed :: "db \<Rightarrow> pyerror + (db \<times> 'a) \<Rightarrow> db" where
  "committed d r = (case r of Inl e \<Rightarrow> d | Inr (d', v) \<Rightarrow> d')"

record user =
  u_id :: uuid
  role :: string
  u_factory_id :: "uuid option"

definition require_admin_or_supervisor :: "user \<Rightarrow> pyerror + unit" where
  "require_admin_or_supervisor u =
     (if role u = ''admin'' \<or> role u = ''supervisor'' then Inr ()
      else Inl (HTTPException 403 ''Forbidden''))"

definition audit :: "db \<Rightarrow> uuid \<Rightarrow> string \<Rightarrow> string \<Rightarrow> string \<Rightarrow> uuid option \<Rightarrow> db" where
  "audit d a_id a_role act e_type e_id =
     d\<lparr> audit_logs := audit_logs d @
         [\<lparr> actor_id = a_id, actor_role = a_role, action = act,
            entity_type = e_type, entity_id = e_id \<rparr>] \<rparr>"

definition fetchone :: "'a list \<Rightarrow> 'a option" where
  "fetchone rows = (case rows of [] \<Rightarrow> None | r # _ \<Rightarrow> Some r)"

section \<open>Rate resolution\<close>

definition effective_rate :: "db \<Rightarrow> uuid \<Rightarrow> uuid \<Rightarrow> decimal" where
  "effective_rate d worker_id tt =
     (case fetchone [rate_ngn r. r \<leftarrow> worker_rates d,
                       wr_worker_id r = worker_id \<and> wr_task_type_id r = tt] of
        Some r \<Rightarrow> r
      | None \<Rightarrow>
          (case fetchone [default_rate_ngn t. t \<leftarrow> task_types d, tt_id t = tt] of
             Some dflt \<Rightarrow> dflt
           | None \<Rightarrow> 0))"

section \<open>Day lock and authorisation\<close>

definition assert_workday_open_by_task :: "db \<Rightarrow> uuid \<Rightarrow> pyerror + unit" where
  "assert_workday_open_by_task d task_id =
     (case fetchone [is_closed wd. wt \<leftarrow> work_tasks d, wd \<leftarrow> work_days d,
                       wd_id wd = work_day_id wt \<and> wt_id wt = task_id] of
        None \<Rightarrow> Inl (HTTPException 404 ''Task not found'')
      | Some day_closed \<Rightarrow>
          if day_closed then Inl (HTTPException 400 ''Work day is closed'') else Inr ())"

definition can_decide_task :: "db \<Rightarrow> uuid \<Rightarrow> string \<Rightarrow> uuid \<Rightarrow> bool" where
  "can_decide_task d decider_id decider_role task_id =
     (if decider_role = ''admin'' then True
      else (case fetchone [logged_by wd. wt \<leftarrow> work_tasks d, wd \<leftarrow> work_days d,
                             wd_id wd = work_day_id wt \<and> wt_id wt = task_id] of
              None \<Rightarrow> False
            | Some by \<Rightarrow> by = decider_id))"

section \<open>Work logging\<close>

record WorkTaskCreateIn =
  c_id :: "uuid option"
  c_work_day_id :: uuid
  c_task_type_id :: uuid
  c_quantity :: decimal
  c_note :: "string option"

text \<open>
  \<open>uuid4()\<close> is the argument \<open>fresh\<close>.  The columns the insert does not name take the
  values a new task has in the specification's data model: status pending, no settled
  pay, no decision and no paid-run reference.
\<close>

definition add_work_task :: "db \<Rightarrow> uuid \<Rightarrow> WorkTaskCreateIn \<Rightarrow> user \<Rightarrow> pyerror + (db \<times> uuid)" where
  "add_work_task d fresh body u =
     (if c_quantity body < 0 then Inl (HTTPException 400 ''Quantity cannot be negative'')
      else
        let tid = (case c_id body of Some i \<Rightarrow> i | None \<Rightarrow> fresh)
        in (case fetchone [is_closed wd. wd \<leftarrow> work_days d, wd_id wd = c_work_day_id body] of
              None \<Rightarrow> Inl (HTTPException 404 ''Work day not found'')
            | Some day_closed \<Rightarrow>
                if day_closed then Inl (HTTPException 400 ''Work day is closed'')
                else
                  let d1 = (if \<exists>t \<in> set (work_tasks d). wt_id t = tid then d
                            else d\<lparr> work_tasks := work_tasks d @
                              [\<lparr> wt_id = tid, work_day_id = c_work_day_id body,
                                 task_type_id = c_task_type_id body,
                                 quantity = c_quantity body, wt_note = c_note body,
                                 status = ''pending'', approved_pay_ngn = 0,
                                 decided_by = None, decided_at = None,
                                 decision_reason = None, paid_run_id = None,
                                 paid_at = None, updated_at = None,
                                 updated_by = None \<rparr>] \<rparr>)
                  in Inr (audit d1 (u_id u) (role u) ''TASK_CREATE'' ''work_task'' (Some tid),
                          tid)))"

record WorkTaskUpdateIn =
  p_quantity :: "decimal option option"
  p_note :: "string option option"
  p_task_type_id :: "uuid option"

text \<open>
  The body of a task edit keeps only the fields the request set
  (\<open>model_dump(exclude_unset=True)\<close>): \<open>None\<close> is a field that was not sent,
  \<open>Some None\<close> a field sent as null.
\<close>

definition update_pending_task ::
  "db \<Rightarrow> nat \<Rightarrow> uuid \<Rightarrow> WorkTaskUpdateIn \<Rightarrow> user \<Rightarrow> pyerror + (db \<times> unit)" where
  "update_pending_task d now task_id body u =
     (case require_admin_or_supervisor u of Inl e \<Rightarrow> Inl e | Inr _ \<Rightarrow>
      case assert_workday_open_by_task d task_id of Inl e \<Rightarrow> Inl e | Inr _ \<Rightarrow>
      case fetchone [(status wt, logged_by wd). wt \<leftarrow> work_tasks d, wd \<leftarrow> work_days d,
                       wd_id wd = work_day_id wt \<and> wt_id wt = task_id] of
        None \<Rightarrow> Inl (HTTPException 404 ''Task not found'')
      | Some (st, by) \<Rightarrow>
          if st \<noteq> ''pending'' then Inl (HTTPException 400 ''Only pending tasks can be edited'')
          else if role u = ''supervisor'' \<and> by \<noteq> u_id u
            then Inl (HTTPException 403 ''Supervisors can only edit tasks they logged'')
          else if (case p_quantity body of
                     Some None \<Rightarrow> True | Some (Some q) \<Rightarrow> q < 0 | None \<Rightarrow> False)
            then Inl (HTTPException 400 ''Quantity must be >= 0'')
          else if p_quantity body = None \<and> p_note body = None \<and> p_task_type_id body = None
            then Inr (d, ())
          else
            let upd = (\<lambda>t. if wt_id t = task_id then
                         t\<lparr> quantity := (case p_quantity body of
                                           Some (Some q) \<Rightarrow> q | _ \<Rightarrow> quantity t),
                            wt_note := (case p_note body of Some n \<Rightarrow> n | None \<Rightarrow> wt_note t),
                            task_type_id := (case p_task_type_id body of
                                               Some i \<Rightarrow> i | None \<Rightarrow> task_type_id t),
                            updated_at := Some now, updated_by := Some (u_id u) \<rparr>
                       else t);
                d1 = d\<lparr> work_tasks := map upd (work_tasks d) \<rparr>
            in Inr (audit d1 (u_id u) (role u) ''TASK_EDIT'' ''work_task'' (Some task_id), ()))"

definition delete_pending_task :: "db \<Rightarrow> uuid \<Rightarrow> user \<Rightarrow> pyerror + (db \<times> unit)" where
  "delete_pending_task d task_id u =
     (case require_admin_or_supervisor u of Inl e \<Rightarrow> Inl e | Inr _ \<Rightarrow>
      case assert_workday_open_by_task d task_id of Inl e \<Rightarrow> Inl e | Inr _ \<Rightarrow>
      case fetchone [(status wt, logged_by wd). wt \<leftarrow> work_tasks d, wd \<leftarrow> work_days d,
                       wd_id wd = work_day_id wt \<and> wt_id wt = task_id] of
        None \<Rightarrow> Inl (HTTPException 404 ''Task not found'')
      | Some (st, by) \<Rightarrow>
          if st \<noteq> ''pending''
            then Inl (HTTPException 400 ''Only pending tasks can be deleted'')
          else if role u = ''supervisor'' \<and> by \<noteq> u_id u
            then Inl (HTTPException 403 ''Supervisors can only delete tasks they logged'')
          else
            let d1 = d\<lparr> work_tasks := filter (\<lambda>t. wt_id t \<noteq> task_id) (work_tasks d) \<rparr>
            in Inr (audit d1 (u_id u) (role u) ''TASK_DELETE'' ''work_task'' (Some task_id), ()))"

section \<open>Approval decisions\<close>

datatype decision = Approved | Rejected

definition decision_str :: "decision \<Rightarrow> string" where
  "decision_str s = (case s of Approved \<Rightarrow> ''approved'' | Rejected \<Rightarrow> ''rejected'')"

record WorkTaskDecisionIn =
  d_status :: decision
  d_decision_reason :: "string option"

definition set_decision ::
  "db \<Rightarrow> uuid \<Rightarrow> decision \<Rightarrow> uuid \<Rightarrow> nat \<Rightarrow> string option \<Rightarrow> decimal \<Rightarrow> db" where
  \<comment> \<open>the \<open>update work_tasks set status ... where id = :id\<close> of both decision paths\<close>
  "set_decision d task_id st by now reason pay =
     d\<lparr> work_tasks :=
         map (\<lambda>t. if wt_id t = task_id then
                    t\<lparr> status := decision_str st, decided_by := Some by,
                       decided_at := Some now, decision_reason := reason,
                       approved_pay_ngn := pay \<rparr>
                  else t) (work_tasks d) \<rparr>"

definition decide_task ::
  "db \<Rightarrow> nat \<Rightarrow> uuid \<Rightarrow> WorkTaskDecisionIn \<Rightarrow> user \<Rightarrow> pyerror + (db \<times> decimal)" where
  "decide_task d now task_id body u =
     (case require_admin_or_supervisor u of Inl e \<Rightarrow> Inl e | Inr _ \<Rightarrow>
      case assert_workday_open_by_task d task_id of Inl e \<Rightarrow> Inl e | Inr _ \<Rightarrow>
      case fetchone [(quantity wt, paid_run_id wt, rate_ngn_per_unit tt).
                       wt \<leftarrow> work_tasks d, tt \<leftarrow> task_types d,
                       tt_id tt = task_type_id wt \<and> wt_id wt = task_id] of
        None \<Rightarrow> Inl (HTTPException 404 ''Task not found'')
      | Some (qty, paid, rate) \<Rightarrow>
          if paid \<noteq> None
            then Inl (HTTPException 409 ''Task already paid; cannot change decision'')
          else
            let approved_pay = (if d_status body = Approved
                                then quantize_half_up (qty * rate) else 0);
                d1 = set_decision d task_id (d_status body) (u_id u) now
                       (d_decision_reason body) approved_pay
            in Inr (audit d1 (u_id u) (role u)
                      (if d_status body = Approved then ''TASK_APPROVE'' else ''TASK_REJECT'')
                      ''work_task'' (Some task_id),
                    approved_pay))"

record BulkDecisionIn =
  b_task_ids :: "uuid list"
  b_status :: decision
  b_decision_reason :: "string option"

text \<open>
  One iteration of the loop of \<open>bulk_decide\<close>: the store and the counter \<open>updated\<close> go in
  and come out.  A task whose day is closed or missing, or that the user may not decide,
  is skipped.
\<close>

definition bulk_decide_one ::
  "nat \<Rightarrow> BulkDecisionIn \<Rightarrow> user \<Rightarrow> db \<times> nat \<Rightarrow> uuid \<Rightarrow> db \<times> nat" where
  "bulk_decide_one now body u acc tid =
     (let d = fst acc; updated = snd acc
      in case assert_workday_open_by_task d tid of
           Inl e \<Rightarrow> (d, updated)
         | Inr _ \<Rightarrow>
             if \<not> can_decide_task d (u_id u) (role u) tid then (d, updated)
             else
               (case fetchone [(task_type_id wt, quantity wt, wd_worker_id wd).
                                 wt \<leftarrow> work_tasks d, wd \<leftarrow> work_days d,
                                 wd_id wd = work_day_id wt \<and> wt_id wt = tid] of
                  None \<Rightarrow> (d, updated)
                | Some (tt, qty, worker_id) \<Rightarrow>
                    let rate = effective_rate d worker_id tt;
                        approved_pay = (if b_status body = Approved
                                        then quantize_half_even (qty * rate) else 0);
                        d1 = set_decision d tid (b_status body) (u_id u) now
                               (b_decision_reason body) approved_pay
                    in (audit d1 (u_id u) (role u)
                          (if b_status body = Approved then ''TASK_APPROVE''
                           else ''TASK_REJECT'')
                          ''work_task'' (Some tid),
                        updated + 1)))"

definition bulk_decide :: "db \<Rightarrow> nat \<Rightarrow> BulkDecisionIn \<Rightarrow> user \<Rightarrow> pyerror + (db \<times> nat)" where
  "bulk_decide d now body u =
     (case require_admin_or_supervisor u of Inl e \<Rightarrow> Inl e | Inr _ \<Rightarrow>
      if b_task_ids body = [] then Inr (d, 0)
      else Inr (foldl (bulk_decide_one now body u) (d, 0) (b_task_ids body)))"

section \<open>Payroll views\<close>

text \<open>
  The \<open>from ... join ... where\<close> part shared by the payroll queries: the tasks of one
  worker whose day lies in the period (\<open>between\<close> is inclusive) and whose status is
  approved, each with its day and its task type.
\<close>

definition approved_in_period ::
  "db \<Rightarrow> uuid \<Rightarrow> date \<Rightarrow> date \<Rightarrow> (work_task \<times> work_day \<times> task_type) list" where
  "approved_in_period d wid s e =
     [(wt, wd, tt). wt \<leftarrow> work_tasks d, wd \<leftarrow> work_days d, tt \<leftarrow> task_types d,
        wd_id wd = work_day_id wt \<and> tt_id tt = task_type_id wt \<and>
        wd_worker_id wd = wid \<and> date_le s (work_date wd) \<and> date_le (work_date wd) e \<and>
        status wt = ''approved'']"

definition approved_unpaid_in_period ::
  "db \<Rightarrow> uuid \<Rightarrow> date \<Rightarrow> date \<Rightarrow> (work_task \<times> work_day \<times> task_type) list" where
  \<comment> \<open>the same query with \<open>and wt.paid_run_id is null\<close>\<close>
  "approved_unpaid_in_period d wid s e =
     [r. r \<leftarrow> approved_in_period d wid s e, paid_run_id (fst r) = None]"

record PayrollOut =
  po_worker_id :: uuid
  po_full_name :: string
  po_payout :: string
  po_period_start :: date
  po_period_end :: date
  po_approved_total_pay_ngn :: decimal
  po_approved_combed_kg :: decimal
  po_approved_woven_m :: decimal

definition payroll :: "db \<Rightarrow> uuid \<Rightarrow> date \<Rightarrow> pyerror + PayrollOut" where
  "payroll d worker_id as_of =
     (case fetchone [w. w \<leftarrow> workers d, w_id w = worker_id] of
        None \<Rightarrow> Inl (HTTPException 404 ''Worker not found'')
      | Some w \<Rightarrow>
          (case period_for_worker (payout w) (payout_anchor_date w) as_of of
             Inl e \<Rightarrow> Inl e
           | Inr (start, end0) \<Rightarrow>
               let rows = [(code tt, quantity wt, approved_pay_ngn wt).
                             (wt, wd, tt) \<leftarrow> approved_unpaid_in_period d worker_id start end0];
                   total_pay = sum_list [p. (c, q, p) \<leftarrow> rows];
                   combed = sum_list [q. (c, q, p) \<leftarrow> rows, c = ''COMBING''];
                   woven = sum_list [q. (c, q, p) \<leftarrow> rows, c = ''WEAVING'']
               in Inr \<lparr> po_worker_id = w_id w, po_full_name = full_name w,
                        po_payout = payout w, po_period_start = start,
                        po_period_end = end0,
                        po_approved_total_pay_ngn = quantize_half_even total_pay,
                        po_approved_combed_kg = combed,
                        po_approved_woven_m = woven \<rparr>))"

text \<open>
  \<open>sum(...)\<close> without a start value begins at the integer 0, so over no rows it returns
  the \<open>int\<close> 0, which has no method \<open>quantize\<close>; over at least one \<open>Decimal\<close> it returns a
  \<open>Decimal\<close>.  Values whose Python type matters are \<open>pyval\<close>s.
\<close>

datatype pyval = PUuid uuid | PStr string | PDec decimal | PInt int

definition py_add :: "pyval \<Rightarrow> pyval \<Rightarrow> pyerror + pyval" where
  "py_add a b =
     (case (a, b) of
        (PInt i, PInt j) \<Rightarrow> Inr (PInt (i + j))
      | (PInt i, PDec y) \<Rightarrow> Inr (PDec (of_int i + y))
      | (PDec x, PInt j) \<Rightarrow> Inr (PDec (x + of_int j))
      | (PDec x, PDec y) \<Rightarrow> Inr (PDec (x + y))
      | _ \<Rightarrow> Inl (TypeError ''unsupported operand type(s) for +''))"

fun py_sum_from :: "pyval \<Rightarrow> pyval list \<Rightarrow> pyerror + pyval" where
  "py_sum_from acc [] = Inr acc"
| "py_sum_from acc (x # xs) =
     (case py_add acc x of Inl e \<Rightarrow> Inl e | Inr acc' \<Rightarrow> py_sum_from acc' xs)"

definition py_sum :: "pyval list \<Rightarrow> pyerror + pyval" where
  "py_sum xs = py_sum_from (PInt 0) xs"

definition Decimal_of_str :: "pyval \<Rightarrow> pyerror + pyval" where
  \<comment> \<open>\<open>Decimal(str(v))\<close>; the text of a UUID or of a task-type code is not a number\<close>
  "Decimal_of_str v =
     (case v of
        PDec x \<Rightarrow> Inr (PDec x)
      | PInt i \<Rightarrow> Inr (PDec (of_int i))
      | _ \<Rightarrow> Inl (InvalidOperation ''ConversionSyntax''))"

fun collect :: "(pyerror + 'a) list \<Rightarrow> pyerror + 'a list" where
  "collect [] = Inr []"
| "collect (x # xs) =
     (case x of
        Inl e \<Rightarrow> Inl e
      | Inr v \<Rightarrow> (case collect xs of Inl e \<Rightarrow> Inl e | Inr vs \<Rightarrow> Inr (v # vs)))"

definition py_quantize :: "pyval \<Rightarrow> pyerror + decimal" where
  \<comment> \<open>\<open>v.quantize(Decimal("0.01"))\<close>\<close>
  "py_quantize v =
     (case v of
        PDec x \<Rightarrow> Inr (quantize_half_even x)
      | _ \<Rightarrow> Inl (AttributeError ''object has no attribute quantize''))"

definition numeric_param :: "pyval \<Rightarrow> decimal" where
  \<comment> \<open>the number a numeric column receives from the bind parameter \<open>str(v)\<close>\<close>
  "numeric_param v = (case v of PDec x \<Rightarrow> x | PInt i \<Rightarrow> of_int i | _ \<Rightarrow> 0)"

record PayrollAllRow =
  pa_worker_id :: uuid
  pa_full_name :: string
  pa_payout :: string
  pa_period_start :: date
  pa_period_end :: date
  pa_approved_total_pay_ngn :: decimal

definition payroll_all_worker :: "db \<Rightarrow> date \<Rightarrow> worker \<Rightarrow> pyerror + PayrollAllRow" where
  \<comment> \<open>the body of the loop over the active workers in \<open>payroll_all\<close>\<close>
  "payroll_all_worker d as_of w =
     (case period_for_worker (payout w) (payout_anchor_date w) as_of of
        Inl e \<Rightarrow> Inl e
      | Inr (start, end0) \<Rightarrow>
          let rows = [(code tt, quantity wt, approved_pay_ngn wt).
                        (wt, wd, tt) \<leftarrow> approved_in_period d (w_id w) start end0]
          in (case py_sum [PDec p. (c, q, p) \<leftarrow> rows] of
                Inl e \<Rightarrow> Inl e
              | Inr total_sum \<Rightarrow>
                  (case py_quantize total_sum of
                     Inl e \<Rightarrow> Inl e
                   | Inr total_pay \<Rightarrow>
                       Inr \<lparr> pa_worker_id = w_id w, pa_full_name = full_name w,
                              pa_payout = payout w, pa_period_start = start,
                              pa_period_end = end0,
                              pa_approved_total_pay_ngn = total_pay \<rparr>)))"

definition payroll_all :: "db \<Rightarrow> user \<Rightarrow> date \<Rightarrow> pyerror + PayrollAllRow list" where
  "payroll_all d u as_of =
     pybind (require_admin_or_supervisor u) (\<lambda>_.
       collect (map (payroll_all_worker d as_of) [w. w \<leftarrow> workers d, is_active w]))"

section \<open>Payroll runs\<close>

text \<open>
  In \<open>create_payroll_run\<close> the bind parameters of the eligibility query are written
  \<open>str(worker_id)\<close>, \<open>period_start\<close> and \<open>period_end\<close>.  The function binds \<open>wid\<close>,
  \<open>start\<close> and \<open>end\<close>; the three names it reads are not local, so Python looks them up
  among the module's globals and raises \<open>NameError\<close> when they are not bound there.
  \<open>py_globals\<close> holds what the module binds to the three names, and \<open>module_globals\<close>
  is the module as written, which binds none of them.
\<close>

record py_globals =
  g_worker_id :: "uuid option"
  g_period_start :: "date option"
  g_period_end :: "date option"

definition module_globals :: py_globals where
  "module_globals = \<lparr> g_worker_id = None, g_period_start = None, g_period_end = None \<rparr>"

definition lookup_name :: "'a option \<Rightarrow> string \<Rightarrow> pyerror + 'a" where
  "lookup_name binding name =
     (case binding of None \<Rightarrow> Inl (NameError name) | Some v \<Rightarrow> Inr v)"

definition eligible_rows :: "db \<Rightarrow> uuid \<Rightarrow> date \<Rightarrow> date \<Rightarrow> pyval list list" where
  \<comment> \<open>\<open>select wt.id, tt.code, wt.quantity ...\<close> of \<open>create_payroll_run\<close>\<close>
  "eligible_rows d wid s e =
     [[PUuid (wt_id wt), PStr (code tt), PDec (quantity wt)].
        (wt, wd, tt) \<leftarrow> approved_unpaid_in_period d wid s e]"

definition mark_paid :: "db \<Rightarrow> uuid \<Rightarrow> nat \<Rightarrow> pyval list \<Rightarrow> db" where
  \<comment> \<open>\<open>update work_tasks set paid_run_id, paid_at where id = any(:task_ids) and
      status = 'approved' and paid_run_id is null\<close>\<close>
  "mark_paid d run_id now task_ids =
     d\<lparr> work_tasks :=
         map (\<lambda>t. if PUuid (wt_id t) \<in> set task_ids \<and> status t = ''approved'' \<and>
                     paid_run_id t = None
                  then t\<lparr> paid_run_id := Some run_id, paid_at := Some now \<rparr>
                  else t) (work_tasks d) \<rparr>"

definition insert_run_item :: "db \<Rightarrow> payroll_run_item \<Rightarrow> db" where
  \<comment> \<open>\<open>insert into payroll_run_items ... on conflict (run_id, worker_id) do nothing\<close>\<close>
  "insert_run_item d item =
     (if \<exists>i \<in> set (payroll_run_items d).
           pri_run_id i = pri_run_id item \<and> pri_worker_id i = pri_worker_id item
      then d
      else d\<lparr> payroll_run_items := payroll_run_items d @ [item] \<rparr>)"

definition run_worker ::
  "py_globals \<Rightarrow> uuid \<Rightarrow> nat \<Rightarrow> date \<Rightarrow> db \<Rightarrow> worker \<Rightarrow> pyerror + db" where
  \<comment> \<open>the body of the loop over the active workers in \<open>create_payroll_run\<close>\<close>
  "run_worker g run_id now as_of d w =
     (let wid = w_id w in
      pybind (period_for_worker (payout w) (payout_anchor_date w) as_of) (\<lambda>(start, end0).
      pybind (lookup_name (g_worker_id g) ''worker_id'') (\<lambda>worker_id.
      pybind (lookup_name (g_period_start g) ''period_start'') (\<lambda>period_start.
      pybind (lookup_name (g_period_end g) ''period_end'') (\<lambda>period_end.
      let rows = eligible_rows d worker_id period_start period_end in
      pybind (collect [Decimal_of_str (r ! 2). r \<leftarrow> rows]) (\<lambda>ds.
      pybind (py_sum ds) (\<lambda>total_sum.
      pybind (py_quantize total_sum) (\<lambda>total_pay.
      pybind (collect [Decimal_of_str (r ! 1). r \<leftarrow> rows, r ! 0 = PStr ''COMBING'']) (\<lambda>cs.
      pybind (py_sum cs) (\<lambda>combed.
      pybind (collect [Decimal_of_str (r ! 1). r \<leftarrow> rows, r ! 0 = PStr ''WEAVING'']) (\<lambda>ws.
      pybind (py_sum ws) (\<lambda>woven.
      let d1 = insert_run_item d
                 \<lparr> pri_run_id = run_id, pri_worker_id = wid,
                   pri_worker_name = full_name w, pri_payout = payout w,
                   pri_period_start = start, pri_period_end = end0,
                   pri_approved_total_pay_ngn = total_pay,
                   pri_approved_combed_kg = numeric_param combed,
                   pri_approved_woven_m = numeric_param woven \<rparr>;
          task_ids = [r ! 0. r \<leftarrow> rows]
      in Inr (if task_ids \<noteq> [] then mark_paid d1 run_id now task_ids else d1)))))))))))))"

fun run_workers ::
  "py_globals \<Rightarrow> uuid \<Rightarrow> nat \<Rightarrow> date \<Rightarrow> db \<Rightarrow> worker list \<Rightarrow> pyerror + db" where
  "run_workers g run_id now as_of d [] = Inr d"
| "run_workers g run_id now as_of d (w # ws) =
     (case run_worker g run_id now as_of d w of
        Inl e \<Rightarrow> Inl e
      | Inr d' \<Rightarrow> run_workers g run_id now as_of d' ws)"

record PayrollRunCreateIn =
  r_as_of :: date
  r_note :: "string option"

definition create_payroll_run_in ::
  "py_globals \<Rightarrow> db \<Rightarrow> uuid \<Rightarrow> nat \<Rightarrow> PayrollRunCreateIn \<Rightarrow> user \<Rightarrow> pyerror + (db \<times> uuid)" where
  \<comment> \<open>\<open>run_id\<close> is the value of \<open>uuid4()\<close>, \<open>now\<close> that of \<open>datetime.now\<close>\<close>
  "create_payroll_run_in g d run_id now body u =
     pybind (require_admin_or_supervisor u) (\<lambda>_.
      if \<exists>r \<in> set (payroll_runs d). pr_id r = run_id
        then Inl (IntegrityError ''duplicate key value violates unique constraint'')
      else
        let d0 = d\<lparr> payroll_runs := payroll_runs d @
                   [\<lparr> pr_id = run_id, pr_as_of = r_as_of body,
                      pr_created_by = u_id u, pr_note = r_note body \<rparr>] \<rparr>;
            workers_rows = [w. w \<leftarrow> workers d0, is_active w]
        in (case run_workers g run_id now (r_as_of body) d0 workers_rows of
              Inl e \<Rightarrow> Inl e
            | Inr d1 \<Rightarrow>
                Inr (audit d1 (u_id u) (role u) ''PAYROLL_RUN_CREATE'' ''payroll_run''
                       (Some run_id),
                     run_id)))"

definition create_payroll_run ::
  "db \<Rightarrow> uuid \<Rightarrow> nat \<Rightarrow> PayrollRunCreateIn \<Rightarrow> user \<Rightarrow> pyerror + (db \<times> uuid)" where
  "create_payroll_run = create_payroll_run_in module_globals"

record PayrollDueRow =
  pd_worker_id :: uuid
  pd_full_name :: string
  pd_payout :: string
  pd_period_start :: date
  pd_period_end :: date
  pd_approved_combed_kg :: decimal
  pd_approved_woven_m :: decimal
  pd_approved_total_pay_ngn :: decimal

definition payroll_due_worker :: "db \<Rightarrow> date \<Rightarrow> worker \<Rightarrow> pyerror + PayrollDueRow list" where
  \<comment> \<open>the body of the loop of \<open>payroll_due\<close>: no row, or the one row of a worker who is due\<close>
  "payroll_due_worker d as_of w =
     (case compute_period (payout w) (payout_anchor_date w) as_of of
        Inl e \<Rightarrow> Inl e
      | Inr (pstart, pend) \<Rightarrow>
          if date_less as_of pend then Inr []
          else
            let rows = approved_unpaid_in_period d (w_id w) pstart pend;
                combed_kg = sum_list [quantity wt. (wt, wd, tt) \<leftarrow> rows, code tt = ''COMBING''];
                woven_m = sum_list [quantity wt. (wt, wd, tt) \<leftarrow> rows,
                                      code tt = ''WEAVING'' \<or> code tt = ''TWISTING''];
                total_pay =
                  sum_list [quantity wt * rate_ngn_per_unit tt.
                              (wt, wd, tt) \<leftarrow> rows, code tt = ''COMBING''] +
                  sum_list [quantity wt * rate_ngn_per_unit tt.
                              (wt, wd, tt) \<leftarrow> rows,
                              code tt = ''WEAVING'' \<or> code tt = ''TWISTING''] +
                  sum_list [quantity wt * rate_ngn_per_unit tt.
                              (wt, wd, tt) \<leftarrow> rows,
                              \<not> (code tt = ''COMBING'' \<or> code tt = ''WEAVING'' \<or>
                                 code tt = ''TWISTING'')]
            in if 0 < total_pay
               then Inr [\<lparr> pd_worker_id = w_id w, pd_full_name = full_name w,
                           pd_payout = payout w, pd_period_start = pstart,
                           pd_period_end = pend, pd_approved_combed_kg = combed_kg,
                           pd_approved_woven_m = woven_m,
                           pd_approved_total_pay_ngn = total_pay \<rparr>]
               else Inr [])"

definition payroll_due :: "db \<Rightarrow> date \<Rightarrow> user \<Rightarrow> pyerror + PayrollDueRow list" where
  "payroll_due d as_of u =
     (let wrows =
            (if role u = ''supervisor'' \<and> u_factory_id u \<noteq> None
             then [w. w \<leftarrow> workers d, is_active w \<and> w_factory_id w = u_factory_id u]
             else [w. w \<leftarrow> workers d, is_active w])
      in case collect (map (payroll_due_worker d as_of) wrows) of
           Inl e \<Rightarrow> Inl e
         | Inr due \<Rightarrow> Inr (concat due))"

section \<open>Example stores\<close>

text \<open>
  One weekly worker (anchor 2024-03-01) with an override rate of 150 for combing, whose
  default rate is 100; one open work day, 2024-03-04, logged by user 5; one task of
  quantity 1 on that day.  The variants below change the task or the day.
\<close>

definition ex_worker :: worker where
  "ex_worker = \<lparr> w_id = 1, full_name = ''Ada'', payout = ''weekly'',
      payout_anchor_date = \<lparr>year = 2024, month = 3, day = 1\<rparr>,
      w_factory_id = None, is_active = True \<rparr>"

definition ex_combing :: task_type where
  "ex_combing = \<lparr> tt_id = 10, code = ''COMBING'', default_rate_ngn = 100,
      rate_ngn_per_unit = 100 \<rparr>"

definition ex_weaving :: task_type where
  "ex_weaving = \<lparr> tt_id = 11, code = ''WEAVING'', default_rate_ngn = 1,
      rate_ngn_per_unit = 1 \<rparr>"

definition ex_day :: work_day where
  "ex_day = \<lparr> wd_id = 20, wd_worker_id = 1,
      work_date = \<lparr>year = 2024, month = 3, day = 4\<rparr>, logged_by = 5,
      is_closed = False \<rparr>"

definition ex_task :: work_task where
  "ex_task = \<lparr> wt_id = 30, work_day_id = 20, task_type_id = 10, quantity = 1,
      wt_note = None, status = ''pending'', approved_pay_ngn = 0, decided_by = None,
      decided_at = None, decision_reason = None, paid_run_id = None, paid_at = None,
      updated_at = None, updated_by = None \<rparr>"

definition ex_db :: db where
  "ex_db = \<lparr> workers = [ex_worker], task_types = [ex_combing, ex_weaving],
      worker_rates = [\<lparr> wr_worker_id = 1, wr_task_type_id = 10, rate_ngn = 150 \<rparr>],
      work_days = [ex_day], work_tasks = [ex_task], payroll_runs = [],
      payroll_run_items = [], audit_logs = [] \<rparr>"

definition ex_admin :: user where
  "ex_admin = \<lparr> u_id = 5, role = ''admin'', u_factory_id = None \<rparr>"

definition ex_db_paid :: db where
  \<comment> \<open>the task approved with pay 100 and already claimed by payroll run 77\<close>
  "ex_db_paid = ex_db\<lparr> work_tasks :=
      [ex_task\<lparr> status := ''approved'', approved_pay_ngn := 100,
                paid_run_id := Some 77, paid_at := Some 3 \<rparr>] \<rparr>"

definition ex_db_approved :: db where
  \<comment> \<open>the task approved with pay 100 and not yet paid\<close>
  "ex_db_approved = ex_db\<lparr> work_tasks :=
      [ex_task\<lparr> status := ''approved'', approved_pay_ngn := 100 \<rparr>] \<rparr>"

definition ex_db_eighth :: db where
  \<comment> \<open>a weaving task of 0.125 m at the default rate 1\<close>
  "ex_db_eighth = ex_db\<lparr> work_tasks :=
      [ex_task\<lparr> task_type_id := 11, quantity := 1 / 8 \<rparr>] \<rparr>"

definition ex_db_closed :: db where
  \<comment> \<open>the work day is closed\<close>
  "ex_db_closed = ex_db\<lparr> work_days := [ex_day\<lparr> is_closed := True \<rparr>] \<rparr>"




section \<open>Reference notions for the day lock\<close>

text \<open>
  The status code of an HTTP error, and what it means for a task, or for a work day
  named by its identifier, to be on a closed day: the rows the lock queries read exist
  and all carry the closed flag.  With unique keys there is exactly one such row.
\<close>

definition http_status :: "pyerror \<Rightarrow> nat option" where
  "http_status e = (case e of HTTPException c detail \<Rightarrow> Some c | _ \<Rightarrow> None)"

definition task_on_closed_day :: "db \<Rightarrow> uuid \<Rightarrow> bool" where
  "task_on_closed_day d task_id =
     (let ds = [is_closed wd. wt \<leftarrow> work_tasks d, wd \<leftarrow> work_days d,
                  wd_id wd = work_day_id wt \<and> wt_id wt = task_id]
      in ds \<noteq> [] \<and> list_all (\<lambda>c. c) ds)"

definition day_is_closed :: "db \<Rightarrow> uuid \<Rightarrow> bool" where
  "day_is_closed d day_id =
     (let ds = [is_closed wd. wd \<leftarrow> work_days d, wd_id wd = day_id]
      in ds \<noteq> [] \<and> list_all (\<lambda>c. c) ds)"

section \<open>Reference notion for settlement\<close>


section \<open>Calendar lemmas\<close>

lemma div_step:
  fixes y k :: int
  assumes "0 < k"
  shows "y div k = (y - 1) div k + (if y mod k = 0 then 1 else 0)"
proof -
  define q where "q = (y - 1) div k"
  define r where "r = (y - 1) mod k"
  have "y - 1 = k * q + r" unfolding q_def r_def by simp
  then have y: "y = k * q + (r + 1)" by linarith
  have r: "0 \<le> r" "r < k" using assms unfolding r_def by simp_all
  show ?thesis
  proof (cases "r + 1 = k")
    case True
    then have "y = k * (q + 1) + 0" using y by (simp add: distrib_left)
    then have "y div k = q + 1" "y mod k = 0"
      using assms int_div_pos_eq [of y k "q + 1" 0] int_mod_pos_eq [of y k "q + 1" 0] by linarith+
    then show ?thesis unfolding q_def by simp
  next
    case False
    then have lt: "r + 1 < k" using r by linarith
    have ge: "0 \<le> r + 1" using r by linarith
    have "y div k = q" using int_div_pos_eq [OF y ge lt] .
    moreover have "y mod k = r + 1" using int_mod_pos_eq [OF y ge lt] .
    ultimately show ?thesis using r unfolding q_def by simp
  qed
qed

lemma mod_chain:
  fixes y :: int
  shows "y mod 400 = 0 \<Longrightarrow> y mod 100 = 0" and "y mod 100 = 0 \<Longrightarrow> y mod 4 = 0"
proof -
  have a: "(100::int) dvd 400" and b: "(4::int) dvd 100" by simp_all
  { assume "y mod 400 = 0"
    then have "400 dvd y" by (rule mod_eq_0_iff_dvd [THEN iffD1])
    with a have "100 dvd y" by (rule dvd_trans)
    then show "y mod 100 = 0" by (rule mod_eq_0_iff_dvd [THEN iffD2]) }
  { assume "y mod 100 = 0"
    then have "100 dvd y" by (rule mod_eq_0_iff_dvd [THEN iffD1])
    with b have "4 dvd y" by (rule dvd_trans)
    then show "y mod 4 = 0" by (rule mod_eq_0_iff_dvd [THEN iffD2]) }
qed

lemma days_before_year_Suc:
  "days_before_year (y + 1) = days_before_year y + 365 + (if is_leap y then 1 else 0)"
proof -
  define p4 where "p4 = (y mod 4 = 0)"
  define p100 where "p100 = (y mod 100 = 0)"
  define p400 where "p400 = (y mod 400 = 0)"
  define q4 where "q4 = (y - 1) div 4"
  define q100 where "q100 = (y - 1) div 100"
  define q400 where "q400 = (y - 1) div 400"
  define d4 where "d4 = y div 4"
  define d100 where "d100 = y div 100"
  define d400 where "d400 = y div 400"
  have i1: "p400 \<Longrightarrow> p100" unfolding p400_def p100_def by (rule mod_chain)
  have i2: "p100 \<Longrightarrow> p4" unfolding p100_def p4_def by (rule mod_chain)
  have e4: "d4 = q4 + (if p4 then 1 else 0)"
    unfolding d4_def q4_def p4_def by (rule div_step) simp
  have e100: "d100 = q100 + (if p100 then 1 else 0)"
    unfolding d100_def q100_def p100_def by (rule div_step) simp
  have e400: "d400 = q400 + (if p400 then 1 else 0)"
    unfolding d400_def q400_def p400_def by (rule div_step) simp
  have leap: "is_leap y = (p4 \<and> (\<not> p100 \<or> p400))"
    unfolding is_leap_def p4_def p100_def p400_def by (rule refl)
  have lhs: "days_before_year (y + 1) = y * 365 + d4 - d100 + d400"
    unfolding days_before_year_def d4_def d100_def d400_def by (simp only: add_diff_cancel_right')
  have rhs: "days_before_year y = (y - 1) * 365 + q4 - q100 + q400"
    unfolding days_before_year_def q4_def q100_def q400_def by (rule refl)
  have lin: "(y - 1) * 365 = y * 365 - 365" by (simp add: left_diff_distrib)
  show ?thesis
    unfolding lhs rhs leap e4 e100 e400 lin using i1 i2
    by (cases p4; cases p100; cases p400; simp)
qed


lemma days_before_month_Suc:
  assumes "1 \<le> m" "m < 12"
  shows "days_before_month y (m + 1) = days_before_month y m + monthrange_last y m"
proof -
  from assms have "m = 1 \<or> m = 2 \<or> m = 3 \<or> m = 4 \<or> m = 5 \<or> m = 6 \<or> m = 7 \<or> m = 8
     \<or> m = 9 \<or> m = 10 \<or> m = 11" by arith
  then show ?thesis
    by (elim disjE) (simp_all add: days_before_month_def monthrange_last_def)
qed

lemma days_before_month_12:
  "days_before_month y 12 + 31 = 365 + (if is_leap y then 1 else 0)"
  by (simp add: days_before_month_def)

lemma monthrange_last_bounds: "28 \<le> monthrange_last y m" "monthrange_last y m \<le> 31"
  by (simp_all add: monthrange_last_def)

lemma toordinal_next_day:
  assumes "wf_date d"
  shows "toordinal (next_day d) = toordinal d + 1"
proof -
  from assms have m: "1 \<le> month d" "month d \<le> 12"
    and dd: "day d \<le> monthrange_last (year d) (month d)"
    by (simp_all add: wf_date_def)
  consider (a) "day d < monthrange_last (year d) (month d)"
    | (b) "day d = monthrange_last (year d) (month d)" "month d < 12"
    | (c) "day d = monthrange_last (year d) (month d)" "month d = 12"
    using m dd by linarith
  then show ?thesis
  proof cases
    case a then show ?thesis by (simp add: next_day_def toordinal_def)
  next
    case b
    with m show ?thesis
      by (simp add: next_day_def toordinal_def days_before_month_Suc)
  next
    case c
    then have d31: "day d = 31" by (simp add: monthrange_last_def)
    have "days_before_year (year d + 1) + days_before_month (year d + 1) 1 + 1
        = days_before_year (year d) + (days_before_month (year d) 12 + 31) + 1"
      unfolding days_before_year_Suc days_before_month_12
      by (simp add: days_before_month_def)
    with c d31 show ?thesis
      by (simp add: next_day_def toordinal_def monthrange_last_def)
  qed
qed

lemma wf_next_day: "wf_date d \<Longrightarrow> wf_date (next_day d)"
  using monthrange_last_bounds [of "year d" "month d + 1"] monthrange_last_bounds [of "year d + 1" 1]
  by (auto simp add: wf_date_def next_day_def)

lemma wf_prev_day: "wf_date d \<Longrightarrow> wf_date (prev_day d)"
  using monthrange_last_bounds [of "year d" "month d - 1"]
  by (auto simp add: wf_date_def prev_day_def monthrange_last_def [of _ 12])

lemma next_prev_day: "wf_date d \<Longrightarrow> next_day (prev_day d) = d"
  using monthrange_last_bounds [of "year d" "month d - 1"]
  by (auto simp add: wf_date_def prev_day_def next_day_def monthrange_last_def [of _ 12])

lemma toordinal_prev_day:
  assumes "wf_date d"
  shows "toordinal (prev_day d) = toordinal d - 1"
  using toordinal_next_day [OF wf_prev_day [OF assms]] next_prev_day [OF assms] by simp

lemma days_later_props:
  "wf_date d \<Longrightarrow> wf_date (days_later n d) \<and> toordinal (days_later n d) = toordinal d + int n"
  by (induction n arbitrary: d) (simp_all add: wf_next_day toordinal_next_day)

lemma days_earlier_props:
  "wf_date d \<Longrightarrow> wf_date (days_earlier n d) \<and> toordinal (days_earlier n d) = toordinal d - int n"
  by (induction n arbitrary: d) (simp_all add: wf_prev_day toordinal_prev_day)

lemma shift_days_props:
  "wf_date d \<Longrightarrow> wf_date (shift_days d k) \<and> toordinal (shift_days d k) = toordinal d + k"
  using days_later_props [of d "nat k"] days_earlier_props [of d "nat (- k)"]
  by (simp add: shift_days_def)


lemma days_before_year_mono_aux:
  "days_before_year y \<le> days_before_year (y + int n)"
proof (induction n)
  case 0 then show ?case by simp
next
  case (Suc n)
  have "days_before_year (y + int n + 1) = days_before_year (y + int n) + 365 +
          (if is_leap (y + int n) then 1 else 0)"
    by (rule days_before_year_Suc)
  then have "days_before_year (y + int n) \<le> days_before_year (y + int n + 1)"
    by (simp split: if_splits)
  moreover have "y + int (Suc n) = y + int n + 1" by simp
  ultimately show ?case using Suc by (simp only: order_trans)
qed

lemma days_before_year_mono:
  assumes "y \<le> y'"
  shows "days_before_year y \<le> days_before_year y'"
proof -
  from assms have "y' = y + int (nat (y' - y))" by simp
  then show ?thesis using days_before_year_mono_aux [of y "nat (y' - y)"] by simp
qed

lemma month_cases:
  assumes "1 \<le> m" "m \<le> (12::int)"
  shows "m = 1 \<or> m = 2 \<or> m = 3 \<or> m = 4 \<or> m = 5 \<or> m = 6 \<or> m = 7 \<or> m = 8
     \<or> m = 9 \<or> m = 10 \<or> m = 11 \<or> m = 12"
  using assms by arith

lemma days_in_year_bound:
  assumes "1 \<le> m" "m \<le> 12"
  shows "days_before_month y m + monthrange_last y m \<le> 365 + (if is_leap y then 1 else 0)"
  using month_cases [OF assms]
  by (elim disjE) (simp_all add: days_before_month_def monthrange_last_def)

lemma days_before_month_nonneg: "0 \<le> days_before_month y m"
  by (simp add: days_before_month_def)

lemma days_before_month_mono:
  assumes "1 \<le> m" "m < m'" "m' \<le> 12"
  shows "days_before_month y m + monthrange_last y m \<le> days_before_month y m'"
proof -
  have m: "m = 1 \<or> m = 2 \<or> m = 3 \<or> m = 4 \<or> m = 5 \<or> m = 6 \<or> m = 7 \<or> m = 8
     \<or> m = 9 \<or> m = 10 \<or> m = 11 \<or> m = 12" using assms by (intro month_cases) simp_all
  have m': "m' = 1 \<or> m' = 2 \<or> m' = 3 \<or> m' = 4 \<or> m' = 5 \<or> m' = 6 \<or> m' = 7 \<or> m' = 8
     \<or> m' = 9 \<or> m' = 10 \<or> m' = 11 \<or> m' = 12" using assms by (intro month_cases) simp_all
  from m show ?thesis
  proof (elim disjE)
  qed (use m' assms(2) in \<open>auto simp add: days_before_month_def monthrange_last_def\<close>)
qed

lemma toordinal_strict_mono:
  assumes "wf_date a" "wf_date b" "date_less a b"
  shows "toordinal a < toordinal b"
proof -
  from assms(1) have a: "1 \<le> month a" "month a \<le> 12" "1 \<le> day a"
    "day a \<le> monthrange_last (year a) (month a)" by (simp_all add: wf_date_def)
  from assms(2) have b: "1 \<le> month b" "month b \<le> 12" "1 \<le> day b"
    "day b \<le> monthrange_last (year b) (month b)" by (simp_all add: wf_date_def)
  consider (y) "year a < year b"
    | (m) "year a = year b" "month a < month b"
    | (d) "year a = year b" "month a = month b" "day a < day b"
    using assms(3) by (auto simp add: date_less_def)
  then show ?thesis
  proof cases
    case y
    have "toordinal a \<le> days_before_year (year a) + 365 + (if is_leap (year a) then 1 else 0)"
      using days_in_year_bound [OF a(1,2), of "year a"] a(4) by (simp add: toordinal_def)
    also have "\<dots> = days_before_year (year a + 1)" by (simp add: days_before_year_Suc)
    also have "\<dots> \<le> days_before_year (year b)" using y by (intro days_before_year_mono) simp
    also have "\<dots> < toordinal b"
      using days_before_month_nonneg [of "year b" "month b"] b(3) by (simp add: toordinal_def)
    finally show ?thesis .
  next
    case m
    then show ?thesis
      using days_before_month_mono [OF a(1) m(2) b(2), of "year a"] a(4) b(3)
      by (simp add: toordinal_def)
  next
    case d
    then show ?thesis by (simp add: toordinal_def)
  qed
qed

lemma date_less_iff_toordinal:
  assumes "wf_date a" "wf_date b"
  shows "date_less a b \<longleftrightarrow> toordinal a < toordinal b"
proof
  assume "date_less a b" then show "toordinal a < toordinal b"
    using assms by (intro toordinal_strict_mono)
next
  assume lt: "toordinal a < toordinal b"
  show "date_less a b"
  proof (rule ccontr)
    assume n: "\<not> date_less a b"
    have "date_less b a \<or> (year a = year b \<and> month a = month b \<and> day a = day b)"
      using n unfolding date_less_def by linarith
    then consider "date_less b a" | "year a = year b \<and> month a = month b \<and> day a = day b"
      by blast
    then show False
    proof cases
      case 1 then show False using toordinal_strict_mono [OF assms(2) assms(1)] lt by simp
    next
      case 2 then show False using lt by (simp add: toordinal_def)
    qed
  qed
qed

lemma date_le_iff_toordinal:
  assumes "wf_date a" "wf_date b"
  shows "date_le a b \<longleftrightarrow> toordinal a \<le> toordinal b"
  using date_less_iff_toordinal [OF assms(2) assms(1)] by (auto simp add: date_le_def)


lemma valid_date_wf: "valid_date d \<Longrightarrow> wf_date d"
  by (simp add: valid_date_def)

lemma date_add_Inr:
  assumes "date_add d k = Inr r" "wf_date d"
  shows "valid_date r" "toordinal r = toordinal d + k"
proof -
  from assms(1) have r: "r = shift_days d k" and v: "valid_date (shift_days d k)"
    by (auto simp add: date_add_def Let_def split: if_splits)
  from v r show "valid_date r" by simp
  from r shift_days_props [OF assms(2), of k] show "toordinal r = toordinal d + k" by simp
qed

lemma mk_date_Inr:
  assumes "mk_date y m d = Inr r"
  shows "valid_date r" "year r = y" "month r = m" "day r = d"
  using assms by (auto simp add: mk_date_def Let_def split: if_splits)

lemma add_month_later:
  assumes "wf_date d" "add_month d = Inr n"
  shows "valid_date n" "date_less d n"
proof -
  from assms(1) have m: "1 \<le> month d" "month d \<le> 12" by (simp_all add: wf_date_def)
  note n = mk_date_Inr [OF assms(2) [unfolded add_month_def Let_def]]
  show "valid_date n" by (rule n(1))
  show "date_less d n"
  proof (cases "month d = 12")
    case True
    then show ?thesis using n(2,3) by (simp add: date_less_def)
  next
    case False
    with m have "month d < 12" by simp
    with m have "month d div 12 = 0" "month d mod 12 = month d" by simp_all
    then show ?thesis using n(2,3) by (simp add: date_less_def)
  qed
qed

section \<open>Properties of the rubric\<close>

text \<open>
  C9 (as stated, refuted): for 0 kg combed and 30 m woven the claim expects one of the two
  remaining figures to be 0.  The evaluator returns 60 m of weaving still needed and
  0.5 kg of combing still needed; neither figure is 0.
\<close>

theorem rubric_remaining_counterexample:
  "weaving_needed_m (rubric_from_logged 0 30) = 60 \<and>
   combing_needed_kg (rubric_from_logged 0 30) = 1 / 2 \<and>
   weaving_needed_m (rubric_from_logged 0 30) \<noteq> 0 \<and>
   combing_needed_kg (rubric_from_logged 0 30) \<noteq> 0"
  by (simp add: rubric_from_logged_def METRES_PER_KG_EQUIV_def DAILY_TARGET_KG_EQUIV_def Let_def)

text \<open>
  C9 (amended): for all non-negative quantities the evaluator returns
  progress = combed + woven / 60, target met iff progress is at least 1, weaving needed
  = max 0 ((1 - combed) * 60) and combing needed = max 0 ((60 - woven) / 60), both never
  negative; for 0 kg combed and 30 m woven this is progress 0.5, target not met, 60 m of
  weaving needed and 0.5 kg of combing needed.
\<close>

theorem rubric_from_logged_spec:
  "0 \<le> a \<and> 0 \<le> b \<longrightarrow>
     progress_kg_equiv (rubric_from_logged a b) = a + b / 60 \<and>
     (target_met (rubric_from_logged a b) \<longleftrightarrow> a + b / 60 \<ge> 1) \<and>
     weaving_needed_m (rubric_from_logged a b) = max 0 ((1 - a) * 60) \<and>
     combing_needed_kg (rubric_from_logged a b) = max 0 ((60 - b) / 60) \<and>
     0 \<le> weaving_needed_m (rubric_from_logged a b) \<and>
     0 \<le> combing_needed_kg (rubric_from_logged a b)"
  by (auto simp add: rubric_from_logged_def METRES_PER_KG_EQUIV_def DAILY_TARGET_KG_EQUIV_def
        Let_def max_def)

theorem rubric_from_logged_spec_witness:
  "(0::rat) \<le> 0 \<and> (0::rat) \<le> 30 \<and>
   progress_kg_equiv (rubric_from_logged 0 30) = 1 / 2 \<and>
   \<not> target_met (rubric_from_logged 0 30) \<and>
   weaving_needed_m (rubric_from_logged 0 30) = 60 \<and>
   combing_needed_kg (rubric_from_logged 0 30) = 1 / 2"
  using rubric_from_logged_spec [of 0 30] by simp

section \<open>Period boundaries\<close>

lemma compute_period_weekly_shape:
  assumes "pay_freq = ''weekly'' \<or> pay_freq = ''biweekly''"
    and "compute_period pay_freq anchor as_of = Inr (s, e)"
  shows "\<exists>k. date_add anchor k = Inr s \<and>
             date_add s (if pay_freq = ''weekly'' then 6 else 13) = Inr e"
  using assms unfolding compute_period_def Let_def
  by (auto split: sum.splits if_splits)

lemma compute_period_monthly_shape:
  assumes "\<not> (pay_freq = ''weekly'' \<or> pay_freq = ''biweekly'')"
    and "compute_period pay_freq anchor as_of = Inr (s, e)"
  shows "\<exists>next_anchor.
           most_recent_anchor (day anchor) as_of = Inr s \<and>
           add_month s = Inr next_anchor \<and> date_add next_anchor (- 1) = Inr e"
  using assms unfolding compute_period_def Let_def
  by (simp split: sum.splits)

lemma most_recent_anchor_valid:
  assumes "most_recent_anchor adom as_of = Inr s"
  shows "valid_date s"
proof -
  obtain cand where c: "mk_date (year as_of) (month as_of)
      (min adom (monthrange_last (year as_of) (month as_of))) = Inr cand"
    using assms unfolding most_recent_anchor_def Let_def by (simp split: sum.splits)
  show ?thesis
  proof (cases "date_less as_of cand")
    case True
    then obtain y m d where "mk_date y m d = Inr s"
      using assms c unfolding most_recent_anchor_def Let_def by simp
    then show ?thesis by (rule mk_date_Inr(1))
  next
    case False
    then have "s = cand" using assms c unfolding most_recent_anchor_def Let_def by simp
    then show ?thesis using mk_date_Inr(1) [OF c] by simp
  qed
qed

lemma compute_period_ordered:
  assumes "valid_date anchor"
    and "compute_period pay_freq anchor as_of = Inr (s, e)"
  shows "valid_date s \<and> valid_date e \<and> date_le s e"
proof (cases "pay_freq = ''weekly'' \<or> pay_freq = ''biweekly''")
  case True
  from compute_period_weekly_shape [OF True assms(2)] obtain k
    where s: "date_add anchor k = Inr s"
      and e: "date_add s (if pay_freq = ''weekly'' then 6 else 13) = Inr e" by blast
  note vs = date_add_Inr [OF s valid_date_wf [OF assms(1)]]
  note ve = date_add_Inr [OF e valid_date_wf [OF vs(1)]]
  have "toordinal s \<le> toordinal e" using ve(2) by (simp split: if_splits)
  then show ?thesis
    using vs(1) ve(1) date_le_iff_toordinal [OF valid_date_wf [OF vs(1)] valid_date_wf [OF ve(1)]]
    by simp
next
  case False
  from compute_period_monthly_shape [OF False assms(2)] obtain next_anchor
    where st: "most_recent_anchor (day anchor) as_of = Inr s"
      and nx: "add_month s = Inr next_anchor"
      and e: "date_add next_anchor (- 1) = Inr e" by blast
  have vs: "valid_date s" using st by (rule most_recent_anchor_valid)
  note nl = add_month_later [OF valid_date_wf [OF vs] nx]
  note ve = date_add_Inr [OF e valid_date_wf [OF nl(1)]]
  have "toordinal s < toordinal next_anchor"
    using toordinal_strict_mono [OF valid_date_wf [OF vs] valid_date_wf [OF nl(1)] nl(2)] .
  then have "toordinal s \<le> toordinal e" using ve(2) by simp
  then show ?thesis
    using vs ve(1) date_le_iff_toordinal [OF valid_date_wf [OF vs] valid_date_wf [OF ve(1)]]
    by simp
qed


lemma div_mult_le_int:
  fixes d b :: int
  assumes "0 < b"
  shows "(d div b) * b \<le> d"
proof -
  have "d = (d div b) * b + d mod b" by simp
  moreover have "0 \<le> d mod b" using assms by simp
  ultimately show ?thesis by linarith
qed

lemma period_for_worker_ordered:
  assumes "valid_date anchor" "valid_date as_of"
    and "freq = ''monthly'' \<or> date_le anchor as_of"
    and "period_for_worker freq anchor as_of = Inr (s, e)"
  shows "date_le s e"
proof (cases "freq = ''monthly''")
  case True
  then have "s = as_of\<lparr> day := 1 \<rparr>" "e = as_of"
    using assms(4) by (auto simp add: period_for_worker_def)
  moreover have "1 \<le> day as_of" using assms(2) by (simp add: valid_date_def wf_date_def)
  ultimately show ?thesis by (simp add: date_le_def date_less_def)
next
  case False
  with assms(3) have le: "date_le anchor as_of" by simp
  define block :: int where "block = (if freq = ''weekly'' then 7 else 14)"
  define delta where "delta = toordinal as_of - toordinal anchor"
  have bpos: "0 < block" by (simp add: block_def)
  have dnn: "\<not> delta < 0"
    using le date_le_iff_toordinal [OF valid_date_wf [OF assms(1)] valid_date_wf [OF assms(2)]]
    by (simp add: delta_def)
  obtain end0 where s: "date_add anchor (delta div block * block) = Inr s"
    and e0: "date_add s (block - 1) = Inr end0"
    and e: "e = (if date_less as_of end0 then as_of else end0)"
    using assms(4) False dnn unfolding period_for_worker_def Let_def block_def [symmetric]
      delta_def [symmetric]
    by (auto split: sum.splits)
  note vs = date_add_Inr [OF s valid_date_wf [OF assms(1)]]
  note ve = date_add_Inr [OF e0 valid_date_wf [OF vs(1)]]
  have "toordinal s \<le> toordinal as_of"
    using vs(2) div_mult_le_int [OF bpos, of delta] by (simp add: delta_def)
  moreover have "toordinal s \<le> toordinal end0" using ve(2) bpos by simp
  ultimately show ?thesis
    using e date_le_iff_toordinal [OF valid_date_wf [OF vs(1)] valid_date_wf [OF ve(1)]]
      date_le_iff_toordinal [OF valid_date_wf [OF vs(1)] valid_date_wf [OF assms(2)]]
    by simp
qed

text \<open>
  The branch of \<open>period_for_worker\<close> for an as-of date before the anchor is commented
  ``clamp to anchor period'', but \<open>min(as_of, anchor + block - 1)\<close> is always the as-of
  date there: for every weekly or biweekly worker and every as-of date before the anchor,
  the returned pair is (anchor, as-of date), whose end lies before its start.
  \<open>compute_period\<close> (lemma \<open>compute_period_ordered\<close>) and the other branches of
  \<open>period_for_worker\<close> (lemma \<open>period_for_worker_ordered\<close>) return ordered pairs.
\<close>

lemma period_for_worker_before_anchor:
  assumes "valid_date anchor" "valid_date as_of" "freq \<noteq> ''monthly''"
    and "date_less as_of anchor"
    and "period_for_worker freq anchor as_of = Inr (s, e)"
  shows "s = anchor \<and> e = as_of \<and> \<not> date_le s e"
proof -
  define block :: int where "block = (if freq = ''weekly'' then 7 else 14)"
  define delta where "delta = toordinal as_of - toordinal anchor"
  have bpos: "0 < block" by (simp add: block_def)
  have lt: "toordinal as_of < toordinal anchor"
    using assms(4) date_less_iff_toordinal [OF valid_date_wf [OF assms(2)] valid_date_wf [OF assms(1)]]
    by simp
  then have neg: "delta < 0" by (simp add: delta_def)
  obtain full_end where fe: "date_add anchor (block - 1) = Inr full_end"
    and s: "s = anchor" and e: "e = (if date_less full_end as_of then full_end else as_of)"
    using assms(5) assms(3) neg unfolding period_for_worker_def Let_def block_def [symmetric]
      delta_def [symmetric]
    by (auto split: sum.splits)
  note vf = date_add_Inr [OF fe valid_date_wf [OF assms(1)]]
  have "\<not> toordinal full_end < toordinal as_of" using vf(2) lt bpos by simp
  then have "\<not> date_less full_end as_of"
    using date_less_iff_toordinal [OF valid_date_wf [OF vf(1)] valid_date_wf [OF assms(2)]] by simp
  with e have e': "e = as_of" by simp
  have "\<not> date_le anchor as_of"
    using lt date_le_iff_toordinal [OF valid_date_wf [OF assms(1)] valid_date_wf [OF assms(2)]]
    by simp
  with s e' show ?thesis by simp
qed

text \<open>
  C5 (code defect): a weekly worker anchored on 2024-03-10, asked for the period of
  2024-03-01, gets from \<open>period_for_worker\<close> the pair (2024-03-10, 2024-03-01), whose end
  lies nine days before its start; a biweekly worker gets the same pair.  For the same
  input \<open>compute_period\<close> returns the ordered block 2024-02-25 to 2024-03-02.
\<close>

theorem period_for_worker_inverted_before_anchor:
  "valid_date \<lparr>year = 2024, month = 3, day = 10\<rparr> \<and>
   valid_date \<lparr>year = 2024, month = 3, day = 1\<rparr> \<and>
   period_for_worker ''weekly'' \<lparr>year = 2024, month = 3, day = 10\<rparr>
       \<lparr>year = 2024, month = 3, day = 1\<rparr>
     = Inr (\<lparr>year = 2024, month = 3, day = 10\<rparr>, \<lparr>year = 2024, month = 3, day = 1\<rparr>) \<and>
   period_for_worker ''biweekly'' \<lparr>year = 2024, month = 3, day = 10\<rparr>
       \<lparr>year = 2024, month = 3, day = 1\<rparr>
     = Inr (\<lparr>year = 2024, month = 3, day = 10\<rparr>, \<lparr>year = 2024, month = 3, day = 1\<rparr>) \<and>
   \<not> date_le \<lparr>year = 2024, month = 3, day = 10\<rparr> \<lparr>year = 2024, month = 3, day = 1\<rparr> \<and>
   compute_period ''weekly'' \<lparr>year = 2024, month = 3, day = 10\<rparr>
       \<lparr>year = 2024, month = 3, day = 1\<rparr>
     = Inr (\<lparr>year = 2024, month = 2, day = 25\<rparr>, \<lparr>year = 2024, month = 3, day = 2\<rparr>) \<and>
   date_le \<lparr>year = 2024, month = 2, day = 25\<rparr> \<lparr>year = 2024, month = 3, day = 2\<rparr>"
  by code_simp

section \<open>Monthly periods\<close>

lemma most_recent_anchor_cases:
  assumes "most_recent_anchor adom as_of = Inr s"
  obtains (same) "s = anchor_day_in adom (year as_of) (month as_of)" "\<not> date_less as_of s"
  | (prev) "date_less as_of (anchor_day_in adom (year as_of) (month as_of))"
      "s = anchor_day_in adom (if month as_of > 1 then year as_of else year as_of - 1)
             (if month as_of > 1 then month as_of - 1 else 12)"
proof -
  obtain cand where c: "mk_date (year as_of) (month as_of)
      (min adom (monthrange_last (year as_of) (month as_of))) = Inr cand"
    using assms unfolding most_recent_anchor_def Let_def by (simp split: sum.splits)
  have cand: "cand = anchor_day_in adom (year as_of) (month as_of)"
    using mk_date_Inr(2-4) [OF c] by (simp add: anchor_day_in_def)
  show thesis
  proof (cases "date_less as_of cand")
    case True
    then have m: "mk_date (if month as_of > 1 then year as_of else year as_of - 1)
        (if month as_of > 1 then month as_of - 1 else 12)
        (min adom (monthrange_last (if month as_of > 1 then year as_of else year as_of - 1)
           (if month as_of > 1 then month as_of - 1 else 12))) = Inr s"
      using assms c unfolding most_recent_anchor_def Let_def by simp
    have "s = anchor_day_in adom (if month as_of > 1 then year as_of else year as_of - 1)
             (if month as_of > 1 then month as_of - 1 else 12)"
      using mk_date_Inr(2-4) [OF m] by (simp add: anchor_day_in_def)
    with True cand show thesis by (intro prev) simp_all
  next
    case False
    then have "s = cand" using assms c unfolding most_recent_anchor_def Let_def by simp
    with False cand show thesis by (intro same) simp_all
  qed
qed

lemma anchor_day_in_fields [simp]:
  "year (anchor_day_in a y m) = y" "month (anchor_day_in a y m) = m"
  "day (anchor_day_in a y m) = min a (monthrange_last y m)"
  by (simp_all add: anchor_day_in_def)

lemma most_recent_anchor_spec:
  assumes "valid_date as_of" "most_recent_anchor adom as_of = Inr s"
  shows "s = anchor_day_in adom (year s) (month s)"
    and "date_le s as_of"
    and "1 \<le> m \<and> m \<le> 12 \<and> date_le (anchor_day_in adom y m) as_of
           \<longrightarrow> date_le (anchor_day_in adom y m) s"
proof -
  from assms(1) have ma: "1 \<le> month as_of" "month as_of \<le> 12"
    by (simp_all add: valid_date_def wf_date_def)
  from assms(2) show "s = anchor_day_in adom (year s) (month s)"
    by (cases rule: most_recent_anchor_cases) simp_all
  from assms(2) show "date_le s as_of"
  proof (cases rule: most_recent_anchor_cases)
    case same then show ?thesis by (simp add: date_le_def)
  next
    case prev
    then show ?thesis using ma by (auto simp add: date_le_def date_less_def)
  qed
  from assms(2) show "1 \<le> m \<and> m \<le> 12 \<and> date_le (anchor_day_in adom y m) as_of
           \<longrightarrow> date_le (anchor_day_in adom y m) s"
  proof (cases rule: most_recent_anchor_cases)
    case same
    then show ?thesis unfolding date_le_def date_less_def by auto
  next
    case prev
    show ?thesis
    proof (intro impI, elim conjE)
      assume m: "1 \<le> m" "m \<le> 12" and le: "date_le (anchor_day_in adom y m) as_of"
      have ne: "\<not> (y = year as_of \<and> m = month as_of)"
        using le prev(1) unfolding date_le_def by auto
      have "y \<le> year as_of" "y = year as_of \<longrightarrow> m \<le> month as_of"
        using le unfolding date_le_def date_less_def by auto
      with ne have ym: "y < year as_of \<or> (y = year as_of \<and> m < month as_of)"
        by linarith
      show "date_le (anchor_day_in adom y m) s"
      proof (cases "month as_of > 1")
        case True
        then show ?thesis using ym m prev(2) unfolding date_le_def date_less_def by auto
      next
        case False
        with ma have "month as_of = 1" by simp
        then show ?thesis using ym m prev(2) unfolding date_le_def date_less_def by auto
      qed
    qed
  qed
qed


lemma date_add_minus_one:
  assumes "date_add n (- 1) = Inr e"
  shows "e = prev_day n"
  using assms by (simp add: date_add_def shift_days_def Let_def split: if_splits)

lemma add_month_fields:
  assumes "wf_date d" "add_month d = Inr n"
  shows "n = (case next_month_of (year d) (month d) of
                (y', m') \<Rightarrow> \<lparr> year = y', month = m', day = min (day d) (monthrange_last y' m') \<rparr>)"
proof -
  from assms(1) have m: "1 \<le> month d" "month d \<le> 12" by (simp_all add: wf_date_def)
  note n = mk_date_Inr [OF assms(2) [unfolded add_month_def Let_def]]
  show ?thesis
  proof (cases "month d = 12")
    case True
    then show ?thesis using n(2-4) by (simp add: next_month_of_def)
  next
    case False
    with m have "month d < 12" by simp
    with m have "month d div 12 = 0" "month d mod 12 = month d" by simp_all
    then show ?thesis using n(2-4) False by (simp add: next_month_of_def)
  qed
qed

lemma compute_period_monthly_end:
  assumes "\<not> (pay_freq = ''weekly'' \<or> pay_freq = ''biweekly'')"
    and "compute_period pay_freq anchor as_of = Inr (s, e)"
    and "day anchor \<le> monthrange_last (year s) (month s)"
  shows "e = prev_day (case next_month_of (year s) (month s) of
                         (y', m') \<Rightarrow> anchor_day_in (day anchor) y' m')"
proof -
  from compute_period_monthly_shape [OF assms(1,2)] obtain next_anchor
    where st: "most_recent_anchor (day anchor) as_of = Inr s"
      and nx: "add_month s = Inr next_anchor"
      and e: "date_add next_anchor (- 1) = Inr e" by blast
  have vs: "valid_date s" using st by (rule most_recent_anchor_valid)
  have "s = anchor_day_in (day anchor) (year s) (month s)"
    using st by (cases rule: most_recent_anchor_cases) simp_all
  then have "day s = min (day anchor) (monthrange_last (year s) (month s))"
    by (metis anchor_day_in_fields(3))
  with assms(3) have ds: "day s = day anchor" by simp
  have "next_anchor = (case next_month_of (year s) (month s) of
                         (y', m') \<Rightarrow> anchor_day_in (day anchor) y' m')"
    using add_month_fields [OF valid_date_wf [OF vs] nx] ds
    by (simp add: anchor_day_in_def split: prod.splits)
  with date_add_minus_one [OF e] show ?thesis by simp
qed

text \<open>
  C6 (amended): for a monthly worker \<open>period_for_worker\<close> returns the first day of the
  as-of date's calendar month through the as-of date.  \<open>compute_period\<close> returns valid
  dates; its start is the most recent occurrence of the anchor's day-of-month (clamped
  to the month's last day) on or before the as-of date; and when the anchor's
  day-of-month exists in the start's month, its end is the day before the occurrence of
  the anchor day in the following month.
\<close>

theorem monthly_period_boundaries:
  assumes "valid_date anchor" "valid_date as_of"
  shows "period_for_worker ''monthly'' anchor as_of = Inr (as_of\<lparr> day := 1 \<rparr>, as_of) \<and>
    (compute_period ''monthly'' anchor as_of = Inr (s, e) \<longrightarrow>
       valid_date s \<and> valid_date e \<and>
       s = anchor_day_in (day anchor) (year s) (month s) \<and>
       date_le s as_of \<and>
       (\<forall>y m. 1 \<le> m \<and> m \<le> 12 \<and> date_le (anchor_day_in (day anchor) y m) as_of
              \<longrightarrow> date_le (anchor_day_in (day anchor) y m) s) \<and>
       (day anchor \<le> monthrange_last (year s) (month s) \<longrightarrow>
          e = prev_day (case next_month_of (year s) (month s) of
                          (y', m') \<Rightarrow> anchor_day_in (day anchor) y' m')))"
proof (intro conjI impI)
  show "period_for_worker ''monthly'' anchor as_of = Inr (as_of\<lparr> day := 1 \<rparr>, as_of)"
    by (simp add: period_for_worker_def)
next
  assume c: "compute_period ''monthly'' anchor as_of = Inr (s, e)"
  have nw: "\<not> (''monthly'' = ''weekly'' \<or> ''monthly'' = ''biweekly'')" by simp
  from compute_period_monthly_shape [OF nw c]
  have st: "most_recent_anchor (day anchor) as_of = Inr s" by blast
  from compute_period_ordered [OF assms(1) c]
  show "valid_date s" "valid_date e" by simp_all
  show "s = anchor_day_in (day anchor) (year s) (month s)"
    by (rule most_recent_anchor_spec(1) [OF assms(2) st])
  show "date_le s as_of" by (rule most_recent_anchor_spec(2) [OF assms(2) st])
  show "\<forall>y m. 1 \<le> m \<and> m \<le> 12 \<and> date_le (anchor_day_in (day anchor) y m) as_of
              \<longrightarrow> date_le (anchor_day_in (day anchor) y m) s"
    using most_recent_anchor_spec(3) [OF assms(2) st] by blast
next
  assume c: "compute_period ''monthly'' anchor as_of = Inr (s, e)"
    and d: "day anchor \<le> monthrange_last (year s) (month s)"
  have nw: "\<not> (''monthly'' = ''weekly'' \<or> ''monthly'' = ''biweekly'')" by simp
  show "e = prev_day (case next_month_of (year s) (month s) of
                          (y', m') \<Rightarrow> anchor_day_in (day anchor) y' m')"
    by (rule compute_period_monthly_end [OF nw c d])
qed

text \<open>
  C6 (as stated, refuted): for anchor 2024-01-15 and as-of 2024-03-20,
  \<open>period_for_worker\<close> starts the monthly period on 2024-03-01, although the anchor day
  2024-03-15 lies on or before the as-of date.  For anchor 2023-01-31 and as-of
  2023-02-28, \<open>compute_period\<close> ends the period on 2023-03-27, not on 2023-03-30, the
  day before the anchor day of March.
\<close>

theorem monthly_period_counterexample:
  "valid_date \<lparr>year = 2024, month = 1, day = 15\<rparr> \<and>
   valid_date \<lparr>year = 2024, month = 3, day = 20\<rparr> \<and>
   period_for_worker ''monthly'' \<lparr>year = 2024, month = 1, day = 15\<rparr>
       \<lparr>year = 2024, month = 3, day = 20\<rparr>
     = Inr (\<lparr>year = 2024, month = 3, day = 1\<rparr>, \<lparr>year = 2024, month = 3, day = 20\<rparr>) \<and>
   date_le (anchor_day_in 15 2024 3) \<lparr>year = 2024, month = 3, day = 20\<rparr> \<and>
   date_less \<lparr>year = 2024, month = 3, day = 1\<rparr> (anchor_day_in 15 2024 3) \<and>
   valid_date \<lparr>year = 2023, month = 1, day = 31\<rparr> \<and>
   valid_date \<lparr>year = 2023, month = 2, day = 28\<rparr> \<and>
   compute_period ''monthly'' \<lparr>year = 2023, month = 1, day = 31\<rparr>
       \<lparr>year = 2023, month = 2, day = 28\<rparr>
     = Inr (\<lparr>year = 2023, month = 2, day = 28\<rparr>, \<lparr>year = 2023, month = 3, day = 27\<rparr>) \<and>
   prev_day (anchor_day_in 31 2023 3) = \<lparr>year = 2023, month = 3, day = 30\<rparr>"
  by code_simp

theorem monthly_period_boundaries_witness:
  "valid_date \<lparr>year = 2023, month = 1, day = 15\<rparr> \<and>
   valid_date \<lparr>year = 2023, month = 3, day = 20\<rparr> \<and>
   period_for_worker ''monthly'' \<lparr>year = 2023, month = 1, day = 15\<rparr>
       \<lparr>year = 2023, month = 3, day = 20\<rparr>
     = Inr (\<lparr>year = 2023, month = 3, day = 1\<rparr>, \<lparr>year = 2023, month = 3, day = 20\<rparr>) \<and>
   compute_period ''monthly'' \<lparr>year = 2023, month = 1, day = 15\<rparr>
       \<lparr>year = 2023, month = 3, day = 20\<rparr>
     = Inr (\<lparr>year = 2023, month = 3, day = 15\<rparr>, \<lparr>year = 2023, month = 4, day = 14\<rparr>) \<and>
   \<lparr>year = 2023, month = 3, day = 15\<rparr> = anchor_day_in 15 2023 3 \<and>
   date_le \<lparr>year = 2023, month = 3, day = 15\<rparr> \<lparr>year = 2023, month = 3, day = 20\<rparr> \<and>
   1 \<le> (2::int) \<and> (2::int) \<le> 12 \<and>
   date_le (anchor_day_in 15 2023 2) \<lparr>year = 2023, month = 3, day = 20\<rparr> \<and>
   date_le (anchor_day_in 15 2023 2) \<lparr>year = 2023, month = 3, day = 15\<rparr> \<and>
   (15::int) \<le> monthrange_last 2023 3 \<and>
   \<lparr>year = 2023, month = 4, day = 14\<rparr> = prev_day (anchor_day_in 15 2023 4)"
proof -
  let ?a = "\<lparr>year = 2023, month = 1, day = 15\<rparr>"
  let ?d = "\<lparr>year = 2023, month = 3, day = 20\<rparr>"
  let ?s = "\<lparr>year = 2023, month = 3, day = 15\<rparr>"
  let ?e = "\<lparr>year = 2023, month = 4, day = 14\<rparr>"
  have va: "valid_date ?a" by code_simp
  have vd: "valid_date ?d" by code_simp
  have c: "compute_period ''monthly'' ?a ?d = Inr (?s, ?e)" by code_simp
  have o: "date_le (anchor_day_in 15 2023 2) ?d" by code_simp
  have l: "(15::int) \<le> monthrange_last 2023 3" by code_simp
  have nm: "next_month_of 2023 3 = (2023, 4)" by code_simp
  note t = monthly_period_boundaries [OF va vd, of ?s ?e]
  from t have p: "period_for_worker ''monthly'' ?a ?d = Inr (?d\<lparr> day := 1 \<rparr>, ?d)" by blast
  from t c have r: "?s = anchor_day_in (day ?a) (year ?s) (month ?s)" "date_le ?s ?d"
    "\<forall>y m. 1 \<le> m \<and> m \<le> 12 \<and> date_le (anchor_day_in (day ?a) y m) ?d
              \<longrightarrow> date_le (anchor_day_in (day ?a) y m) ?s"
    "day ?a \<le> monthrange_last (year ?s) (month ?s) \<longrightarrow>
          ?e = prev_day (case next_month_of (year ?s) (month ?s) of
                          (y', m') \<Rightarrow> anchor_day_in (day ?a) y' m')" by blast+
  from r(3) o have q: "date_le (anchor_day_in 15 2023 2) ?s" by simp
  from r(4) l nm have e: "?e = prev_day (anchor_day_in 15 2023 4)" by simp
  from va vd p c r(1,2) o q l e show ?thesis by simp
qed

section \<open>Decisions\<close>

lemma fetchone_in_set: "fetchone rows = Some r \<Longrightarrow> r \<in> set rows"
  by (cases rows) (simp_all add: fetchone_def)

lemma decide_task_paid_fails:
  assumes "\<forall>t \<in> set (work_tasks d). wt_id t = task_id \<longrightarrow> paid_run_id t \<noteq> None"
  shows "\<exists>e. decide_task d now task_id body u = Inl e \<and>
             committed d (decide_task d now task_id body u) = d"
proof -
  define rows where "rows = [(quantity wt, paid_run_id wt, rate_ngn_per_unit tt).
                       wt \<leftarrow> work_tasks d, tt \<leftarrow> task_types d,
                       tt_id tt = task_type_id wt \<and> wt_id wt = task_id]"
  have paid: "paid \<noteq> None" if "fetchone rows = Some (qty, paid, rate)" for qty paid rate
  proof -
    from fetchone_in_set [OF that] obtain wt where "wt \<in> set (work_tasks d)"
      "wt_id wt = task_id" "paid = paid_run_id wt" unfolding rows_def by auto
    with assms show ?thesis by simp
  qed
  have "\<exists>e. decide_task d now task_id body u = Inl e"
  proof (cases "require_admin_or_supervisor u")
    case (Inl e) then show ?thesis unfolding decide_task_def by simp
  next
    case r: (Inr x)
    show ?thesis
    proof (cases "assert_workday_open_by_task d task_id")
      case (Inl e) then show ?thesis unfolding decide_task_def by (simp add: r)
    next
      case a: (Inr y)
      show ?thesis
      proof (cases "fetchone rows")
        case None
        then show ?thesis unfolding decide_task_def rows_def [symmetric] by (simp add: r a)
      next
        case (Some row)
        obtain qty p rate where row: "row = (qty, p, rate)" by (cases row)
        with Some paid have "p \<noteq> None" by simp
        with Some row show ?thesis
          unfolding decide_task_def rows_def [symmetric] by (simp add: r a)
      qed
    qed
  qed
  then show ?thesis by (auto simp add: committed_def)
qed

text \<open>
  C1 (code defect): the single decision is refused with 409 for a task that a payroll
  run has claimed, but the bulk variant has no such check.  For the approved task 30
  with settled pay 100 and paid-run reference 77, a bulk rejection rewrites the status to
  rejected and the settled pay to 0.
\<close>

theorem bulk_decide_changes_paid_task:
  "map paid_run_id (work_tasks ex_db_paid) = [Some 77] \<and>
   map (\<lambda>t. (status t, approved_pay_ngn t)) (work_tasks ex_db_paid) = [(''approved'', 100)] \<and>
   decide_task ex_db_paid 7 30 \<lparr> d_status = Rejected, d_decision_reason = None \<rparr> ex_admin
     = Inl (HTTPException 409 ''Task already paid; cannot change decision'') \<and>
   map (\<lambda>t. (status t, approved_pay_ngn t, paid_run_id t))
     (work_tasks (committed ex_db_paid
        (bulk_decide ex_db_paid 7
           \<lparr> b_task_ids = [30], b_status = Rejected, b_decision_reason = None \<rparr> ex_admin)))
     = [(''rejected'', 0, Some 77)]"
  by code_simp

text \<open>
  C4 (code defect): the single decision prices an approval with the task type's
  \<open>rate_ngn_per_unit\<close> and never reads the worker's override: with an override of 150
  and a type rate of 100, quantity 1 settles at 100, not 150.  The bulk variant resolves
  the rate (override, else default, else zero) but rounds half-even: quantity 0.125 at
  rate 1 settles at 0.12, where round-half-up gives 0.13.
\<close>

theorem decision_pay_divergence:
  "effective_rate ex_db 1 10 = 150 \<and>
   map_sum id snd (decide_task ex_db 7 30
       \<lparr> d_status = Approved, d_decision_reason = None \<rparr> ex_admin) = Inr 100 \<and>
   quantize_half_up (1 * effective_rate ex_db 1 10) = 150 \<and>
   effective_rate ex_db_eighth 1 11 = 1 \<and>
   map approved_pay_ngn (work_tasks (committed ex_db_eighth
       (bulk_decide ex_db_eighth 7
          \<lparr> b_task_ids = [30], b_status = Approved, b_decision_reason = None \<rparr> ex_admin)))
     = [12 / 100] \<and>
   quantize_half_up (1 / 8 * effective_rate ex_db_eighth 1 11) = 13 / 100"
  by code_simp

text \<open>
  C10 (code defect): the all-workers listing has no \<open>paid_run_id is null\<close> condition.
  For the worker whose only approved task (pay 100) is already paid, the single-worker
  view reports 0 and the listing reports 100.
\<close>

theorem payroll_all_counts_paid_task:
  "map_sum id po_approved_total_pay_ngn
     (payroll ex_db_paid 1 \<lparr>year = 2024, month = 3, day = 5\<rparr>) = Inr 0 \<and>
   map_sum id (map (\<lambda>r. (pa_worker_id r, pa_approved_total_pay_ngn r)))
     (payroll_all ex_db_paid ex_admin \<lparr>year = 2024, month = 3, day = 5\<rparr>) = Inr [(1, 100)]"
  by code_simp

section \<open>The day lock\<close>

lemma fetchone_all_true:
  assumes "ds \<noteq> []" "list_all (\<lambda>c. c) ds"
  shows "fetchone ds = Some True"
  using assms by (cases ds) (simp_all add: fetchone_def)

lemma assert_workday_open_closed:
  assumes "task_on_closed_day d task_id"
  shows "assert_workday_open_by_task d task_id = Inl (HTTPException 400 ''Work day is closed'')"
proof -
  define ds where "ds = [is_closed wd. wt \<leftarrow> work_tasks d, wd \<leftarrow> work_days d,
                  wd_id wd = work_day_id wt \<and> wt_id wt = task_id]"
  from assms have "ds \<noteq> []" "list_all (\<lambda>c. c) ds"
    unfolding task_on_closed_day_def ds_def Let_def by simp_all
  then have "fetchone ds = Some True" by (rule fetchone_all_true)
  then show ?thesis unfolding assert_workday_open_by_task_def ds_def by simp
qed

lemma add_work_task_closed:
  assumes "day_is_closed d (c_work_day_id body)"
  shows "add_work_task d fresh body u =
           Inl (HTTPException 400
                  (if c_quantity body < 0 then ''Quantity cannot be negative''
                   else ''Work day is closed''))"
proof -
  define ds where "ds = [is_closed wd. wd \<leftarrow> work_days d, wd_id wd = c_work_day_id body]"
  from assms have "ds \<noteq> []" "list_all (\<lambda>c. c) ds"
    unfolding day_is_closed_def ds_def Let_def by simp_all
  then have "fetchone ds = Some True" by (rule fetchone_all_true)
  then show ?thesis unfolding add_work_task_def ds_def Let_def by simp
qed

text \<open>
  C8 (amended): when the work day is closed, task creation, task edit, task deletion and
  a decision each fail with HTTP status 400 (detail "Work day is closed"; a creation
  with a negative quantity fails with 400 "Quantity cannot be negative") and leave the
  store unchanged.  The caller of edit, deletion and decision has the role admin or
  supervisor, as those endpoints require.
\<close>

theorem closed_day_rejects_mutations:
  assumes "role u = ''admin'' \<or> role u = ''supervisor''"
  shows "(task_on_closed_day d task_id \<longrightarrow>
            update_pending_task d now task_id ub u
              = Inl (HTTPException 400 ''Work day is closed'') \<and>
            committed d (update_pending_task d now task_id ub u) = d \<and>
            delete_pending_task d task_id u = Inl (HTTPException 400 ''Work day is closed'') \<and>
            committed d (delete_pending_task d task_id u) = d \<and>
            decide_task d now task_id db u = Inl (HTTPException 400 ''Work day is closed'') \<and>
            committed d (decide_task d now task_id db u) = d) \<and>
         (day_is_closed d (c_work_day_id cb) \<longrightarrow>
            (\<exists>detail. add_work_task d fresh cb u = Inl (HTTPException 400 detail)) \<and>
            committed d (add_work_task d fresh cb u) = d)"
proof (intro conjI impI)
  assume c: "task_on_closed_day d task_id"
  have r: "require_admin_or_supervisor u = Inr ()"
    using assms by (auto simp add: require_admin_or_supervisor_def)
  note a = assert_workday_open_closed [OF c]
  show u1: "update_pending_task d now task_id ub u = Inl (HTTPException 400 ''Work day is closed'')"
    unfolding update_pending_task_def by (simp add: r a)
  show u2: "delete_pending_task d task_id u = Inl (HTTPException 400 ''Work day is closed'')"
    unfolding delete_pending_task_def by (simp add: r a)
  show u3: "decide_task d now task_id db u = Inl (HTTPException 400 ''Work day is closed'')"
    unfolding decide_task_def by (simp add: r a)
  show "committed d (update_pending_task d now task_id ub u) = d"
    by (simp add: u1 committed_def)
  show "committed d (delete_pending_task d task_id u) = d"
    by (simp add: u2 committed_def)
  show "committed d (decide_task d now task_id db u) = d"
    by (simp add: u3 committed_def)
next
  assume c: "day_is_closed d (c_work_day_id cb)"
  note a = add_work_task_closed [OF c, of fresh u]
  show "\<exists>detail. add_work_task d fresh cb u = Inl (HTTPException 400 detail)"
    using a by blast
  show "committed d (add_work_task d fresh cb u) = d"
    by (simp add: a committed_def)
qed

theorem closed_day_rejects_mutations_witness:
  "(role ex_admin = ''admin'' \<or> role ex_admin = ''supervisor'') \<and>
   task_on_closed_day ex_db_closed 30 \<and>
   day_is_closed ex_db_closed 20 \<and>
   update_pending_task ex_db_closed 9 30
       \<lparr> p_quantity = Some (Some 2), p_note = None, p_task_type_id = None \<rparr> ex_admin
     = Inl (HTTPException 400 ''Work day is closed'') \<and>
   delete_pending_task ex_db_closed 30 ex_admin
     = Inl (HTTPException 400 ''Work day is closed'') \<and>
   decide_task ex_db_closed 9 30 \<lparr> d_status = Rejected, d_decision_reason = None \<rparr> ex_admin
     = Inl (HTTPException 400 ''Work day is closed'') \<and>
   committed ex_db_closed
       (add_work_task ex_db_closed 31
          \<lparr> c_id = None, c_work_day_id = 20, c_task_type_id = 10, c_quantity = 3,
            c_note = None \<rparr> ex_admin)
     = ex_db_closed"
proof -
  have r: "role ex_admin = ''admin'' \<or> role ex_admin = ''supervisor''" by code_simp
  have t: "task_on_closed_day ex_db_closed 30" by code_simp
  have c: "day_is_closed ex_db_closed
      (c_work_day_id \<lparr> c_id = None, c_work_day_id = 20, c_task_type_id = 10, c_quantity = 3,
            c_note = None \<rparr>)" by code_simp
  have c': "day_is_closed ex_db_closed 20" by code_simp
  from closed_day_rejects_mutations [OF r, of ex_db_closed 30 9
      "\<lparr> p_quantity = Some (Some 2), p_note = None, p_task_type_id = None \<rparr>"
      "\<lparr> d_status = Rejected, d_decision_reason = None \<rparr>"
      "\<lparr> c_id = None, c_work_day_id = 20, c_task_type_id = 10, c_quantity = 3,
            c_note = None \<rparr>" 31] r t c c'
  show ?thesis by blast
qed

text \<open>
  C8 (as stated, refuted): a decision on a task of a closed work day fails with HTTP
  status 400, not with 409 Conflict, the status the same endpoint uses for a task that
  is already paid.
\<close>

theorem closed_day_is_bad_request_counterexample:
  "map is_closed (work_days ex_db_closed) = [True] \<and>
   decide_task ex_db_closed 7 30 \<lparr> d_status = Approved, d_decision_reason = None \<rparr> ex_admin
     = Inl (HTTPException 400 ''Work day is closed'') \<and>
   http_status (HTTPException 400 ''Work day is closed'') \<noteq> Some 409 \<and>
   decide_task ex_db_paid 7 30 \<lparr> d_status = Approved, d_decision_reason = None \<rparr> ex_admin
     = Inl (HTTPException 409 ''Task already paid; cannot change decision'')"
  by code_simp

section \<open>Payroll runs\<close>

lemma run_worker_module_globals:
  "\<exists>e. run_worker module_globals run_id now as_of d w = Inl e"
proof (cases "period_for_worker (payout w) (payout_anchor_date w) as_of")
  case (Inl e)
  then show ?thesis by (simp add: run_worker_def pybind_def)
next
  case (Inr p)
  obtain s e where "p = (s, e)" by (cases p)
  with Inr show ?thesis
    by (simp add: run_worker_def pybind_def lookup_name_def module_globals_def)
qed

lemma run_workers_module_globals:
  "run_workers module_globals run_id now as_of d ws = Inr d' \<Longrightarrow> ws = [] \<and> d' = d"
proof (cases ws)
  case Nil
  assume "run_workers module_globals run_id now as_of d ws = Inr d'"
  with Nil show ?thesis by simp
next
  case (Cons w rest)
  assume r: "run_workers module_globals run_id now as_of d ws = Inr d'"
  from run_worker_module_globals [of run_id now as_of d w] obtain e
    where "run_worker module_globals run_id now as_of d w = Inl e" by blast
  with r Cons show ?thesis by simp
qed

lemma create_payroll_run_store:
  "payroll_run_items (committed d (create_payroll_run d run_id now body u)) = payroll_run_items d
   \<and> work_tasks (committed d (create_payroll_run d run_id now body u)) = work_tasks d"
proof (cases "create_payroll_run d run_id now body u")
  case (Inl e)
  then show ?thesis by (simp add: committed_def)
next
  case (Inr r)
  obtain d' i where r: "r = (d', i)" by (cases r)
  define d0 where "d0 = d\<lparr> payroll_runs := payroll_runs d @
                   [\<lparr> pr_id = run_id, pr_as_of = r_as_of body,
                      pr_created_by = u_id u, pr_note = r_note body \<rparr>] \<rparr>"
  from Inr r obtain d1 where
    rw: "run_workers module_globals run_id now (r_as_of body) d0
           [w. w \<leftarrow> workers d0, is_active w] = Inr d1"
    and d': "d' = audit d1 (u_id u) (role u) ''PAYROLL_RUN_CREATE'' ''payroll_run'' (Some run_id)"
    unfolding create_payroll_run_def create_payroll_run_in_def pybind_def Let_def
      d0_def [symmetric]
    by (auto split: sum.splits if_splits)
  from run_workers_module_globals [OF rw] have "d1 = d0" by simp
  with d' have "payroll_run_items d' = payroll_run_items d" "work_tasks d' = work_tasks d"
    by (simp_all add: audit_def d0_def)
  with Inr r show ?thesis by (simp add: committed_def)
qed

lemma collect_members:
  "collect xs = Inr vs \<Longrightarrow> v \<in> set vs \<Longrightarrow> Inr v \<in> set xs"
proof (induction xs arbitrary: vs)
  case Nil
  then show ?case by simp
next
  case (Cons x xs)
  from Cons.prems(1) obtain y ys where x: "x = Inr y" and ys: "collect xs = Inr ys"
    and vs: "vs = y # ys"
    by (auto split: sum.splits)
  show ?case
  proof (cases "v = y")
    case True with x show ?thesis by simp
  next
    case False
    with Cons.prems(2) vs have "v \<in> set ys" by simp
    from Cons.IH [OF ys this] show ?thesis by simp
  qed
qed

lemma payroll_due_worker_row:
  assumes "payroll_due_worker d as_of w = Inr rows" "r \<in> set rows"
  shows "0 < pd_approved_total_pay_ngn r \<and> date_le (pd_period_end r) as_of"
proof -
  from assms obtain ps pe where "compute_period (payout w) (payout_anchor_date w) as_of = Inr (ps, pe)"
    unfolding payroll_due_worker_def by (auto split: sum.splits)
  with assms show ?thesis
    unfolding payroll_due_worker_def Let_def date_le_def
    by (auto split: if_splits)
qed

text \<open>
  C3 (code defect): for the active worker whose approved, unpaid task (quantity 1,
  settled pay 100, combing) lies in the period, \<open>create_payroll_run\<close> raises
  \<open>NameError\<close> and stores no run item.  With the three names bound to this worker and
  period, the stored item has total pay 1 (the sum of the quantities, the third column
  of the query) and combed quantity 0 (the category test compares the task id with the
  code).
\<close>

theorem run_item_totals_divergence:
  "map (\<lambda>(wt, wd, tt). (approved_pay_ngn wt, code tt, quantity wt))
     (approved_unpaid_in_period ex_db_approved 1
        \<lparr>year = 2024, month = 3, day = 1\<rparr> \<lparr>year = 2024, month = 3, day = 5\<rparr>)
     = [(100, ''COMBING'', 1)] \<and>
   create_payroll_run ex_db_approved 99 8
       \<lparr> r_as_of = \<lparr>year = 2024, month = 3, day = 5\<rparr>, r_note = None \<rparr> ex_admin
     = Inl (NameError ''worker_id'') \<and>
   payroll_run_items (committed ex_db_approved
       (create_payroll_run ex_db_approved 99 8
          \<lparr> r_as_of = \<lparr>year = 2024, month = 3, day = 5\<rparr>, r_note = None \<rparr> ex_admin)) = [] \<and>
   map (\<lambda>i. (pri_worker_id i, pri_approved_total_pay_ngn i, pri_approved_combed_kg i))
     (payroll_run_items (committed ex_db_approved
       (create_payroll_run_in
          \<lparr> g_worker_id = Some 1,
            g_period_start = Some \<lparr>year = 2024, month = 3, day = 1\<rparr>,
            g_period_end = Some \<lparr>year = 2024, month = 3, day = 5\<rparr> \<rparr>
          ex_db_approved 99 8
          \<lparr> r_as_of = \<lparr>year = 2024, month = 3, day = 5\<rparr>, r_note = None \<rparr> ex_admin)))
     = [(1, 1, 0)]"
  by code_simp

section \<open>Settlement is exactly-once\<close>

lemma pybind_Inr: "pybind m f = Inr y \<longleftrightarrow> (\<exists>x. m = Inr x \<and> f x = Inr y)"
  by (cases m) (simp_all add: pybind_def)

lemma lookup_name_Inr: "lookup_name b n = Inr v \<longleftrightarrow> b = Some v"
  by (cases b) (simp_all add: lookup_name_def)

lemma py_sum_nil: "py_sum [] = Inr (PInt 0)"
  by (simp add: py_sum_def)

lemma py_quantize_int:
  "py_quantize (PInt i) = Inl (AttributeError ''object has no attribute quantize'')"
  by (simp add: py_quantize_def)

text \<open>
  An iteration of the loop of \<open>create_payroll_run\<close> completes only when the three free
  names are bound and the selection is not empty (the sum of no rows is the integer 0,
  which has no \<open>quantize\<close>); it then inserts the run item of its worker, whatever the
  selection was, and marks the selected tasks.
\<close>

lemma run_worker_Inr:
  assumes "run_worker g run_id now as_of d w = Inr d'"
  shows "\<exists>wid ps pe item.
           g_worker_id g = Some wid \<and> g_period_start g = Some ps \<and> g_period_end g = Some pe \<and>
           eligible_rows d wid ps pe \<noteq> [] \<and>
           pri_run_id item = run_id \<and> pri_worker_id item = w_id w \<and>
           d' = mark_paid (insert_run_item d item) run_id now
                  [r ! 0. r \<leftarrow> eligible_rows d wid ps pe]"
proof -
  from assms obtain start end0 wid ps pe ds total_sum total_pay combed woven where
    g: "g_worker_id g = Some wid" "g_period_start g = Some ps" "g_period_end g = Some pe"
    and c: "collect [Decimal_of_str (r ! 2). r \<leftarrow> eligible_rows d wid ps pe] = Inr ds"
    and su: "py_sum ds = Inr total_sum"
    and q: "py_quantize total_sum = Inr total_pay"
    and d': "d' = (let d1 = insert_run_item d
                 \<lparr> pri_run_id = run_id, pri_worker_id = w_id w,
                   pri_worker_name = full_name w, pri_payout = payout w,
                   pri_period_start = start, pri_period_end = end0,
                   pri_approved_total_pay_ngn = total_pay,
                   pri_approved_combed_kg = numeric_param combed,
                   pri_approved_woven_m = numeric_param woven \<rparr>;
          task_ids = [r ! 0. r \<leftarrow> eligible_rows d wid ps pe]
      in (if task_ids \<noteq> [] then mark_paid d1 run_id now task_ids else d1))"
    unfolding run_worker_def
    by (auto simp add: pybind_Inr lookup_name_Inr Let_def)
  have ne: "eligible_rows d wid ps pe \<noteq> []"
  proof
    assume "eligible_rows d wid ps pe = []"
    with c have "ds = []" by simp
    with su have "total_sum = PInt 0" by (simp add: py_sum_nil)
    with q show False by (simp add: py_quantize_int)
  qed
  define item where "item = \<lparr> pri_run_id = run_id, pri_worker_id = w_id w,
                   pri_worker_name = full_name w, pri_payout = payout w,
                   pri_period_start = start, pri_period_end = end0,
                   pri_approved_total_pay_ngn = total_pay,
                   pri_approved_combed_kg = numeric_param combed,
                   pri_approved_woven_m = numeric_param woven \<rparr>"
  have "pri_run_id item = run_id" "pri_worker_id item = w_id w" by (simp_all add: item_def)
  moreover have "d' = mark_paid (insert_run_item d item) run_id now
                  [r ! 0. r \<leftarrow> eligible_rows d wid ps pe]"
    using d' ne by (simp add: Let_def item_def)
  ultimately show ?thesis using g ne by blast
qed

lemma insert_run_item_fields [simp]:
  "work_tasks (insert_run_item d item) = work_tasks d"
  "work_days (insert_run_item d item) = work_days d"
  "task_types (insert_run_item d item) = task_types d"
  "workers (insert_run_item d item) = workers d"
  by (simp_all add: insert_run_item_def)

lemma insert_run_item_has_item:
  "\<exists>i \<in> set (payroll_run_items (insert_run_item d item)).
     pri_run_id i = pri_run_id item \<and> pri_worker_id i = pri_worker_id item"
  by (auto simp add: insert_run_item_def)

lemma mark_paid_fields [simp]:
  "work_days (mark_paid d run_id now ids) = work_days d"
  "task_types (mark_paid d run_id now ids) = task_types d"
  "workers (mark_paid d run_id now ids) = workers d"
  "payroll_run_items (mark_paid d run_id now ids) = payroll_run_items d"
  by (simp_all add: mark_paid_def)

lemma audit_fields [simp]:
  "work_tasks (audit d a b c e f) = work_tasks d"
  "work_days (audit d a b c e f) = work_days d"
  "task_types (audit d a b c e f) = task_types d"
  "workers (audit d a b c e f) = workers d"
  by (simp_all add: audit_def)

lemma run_worker_inserts_item:
  assumes "run_worker g run_id now as_of d w = Inr d'"
  shows "\<exists>i \<in> set (payroll_run_items d'). pri_run_id i = run_id \<and> pri_worker_id i = w_id w"
proof -
  from run_worker_Inr [OF assms] obtain wid ps pe item where
    i: "pri_run_id item = run_id" "pri_worker_id item = w_id w"
    and d': "d' = mark_paid (insert_run_item d item) run_id now
                  [r ! 0. r \<leftarrow> eligible_rows d wid ps pe]" by blast
  from insert_run_item_has_item [of d item] i d' show ?thesis by simp
qed















section \<open>Workers with nothing to pay\<close>

text \<open>
  The payroll-due view leaves out a worker whose period has not ended or whose total is
  not positive: every row it returns has a positive total for a period that ended on or
  before the as-of date.
\<close>

lemma payroll_due_rows_positive:
  assumes "payroll_due d as_of u = Inr due" "r \<in> set due"
  shows "0 < pd_approved_total_pay_ngn r \<and> date_le (pd_period_end r) as_of"
proof -
  define wrows where "wrows =
            (if role u = ''supervisor'' \<and> u_factory_id u \<noteq> None
             then [w. w \<leftarrow> workers d, is_active w \<and> w_factory_id w = u_factory_id u]
             else [w. w \<leftarrow> workers d, is_active w])"
  from assms(1) obtain vs where c: "collect (map (payroll_due_worker d as_of) wrows) = Inr vs"
    and due: "due = concat vs"
    unfolding payroll_due_def Let_def wrows_def [symmetric] by (auto split: sum.splits)
  from assms(2) due obtain rows where rows: "rows \<in> set vs" "r \<in> set rows" by auto
  from collect_members [OF c rows(1)] obtain w'
    where "payroll_due_worker d as_of w' = Inr rows" by auto
  with rows(2) have "payroll_due_worker d as_of w' = Inr rows" "r \<in> set rows" by simp_all
  then show ?thesis by (rule payroll_due_worker_row)
qed

text \<open>
  C7 (code defect): the example worker has no approved task in the period 2024-03-01 to
  2024-03-07.  The payroll-due view for 2024-03-07 leaves the worker out and returns the
  empty list.  \<open>create_payroll_run\<close> for the same date has no such guard and does not
  leave the worker out: it raises \<open>NameError\<close>, and with the three names bound to this
  worker and period it raises \<open>AttributeError\<close> on the empty selection; the request
  fails and no payroll run is stored.
\<close>

theorem run_fails_for_worker_with_nothing_to_pay:
  "[w. w \<leftarrow> workers ex_db, is_active w] = [ex_worker] \<and>
   period_for_worker (payout ex_worker) (payout_anchor_date ex_worker)
       \<lparr>year = 2024, month = 3, day = 7\<rparr>
     = Inr (\<lparr>year = 2024, month = 3, day = 1\<rparr>, \<lparr>year = 2024, month = 3, day = 7\<rparr>) \<and>
   approved_unpaid_in_period ex_db (w_id ex_worker)
       \<lparr>year = 2024, month = 3, day = 1\<rparr> \<lparr>year = 2024, month = 3, day = 7\<rparr> = [] \<and>
   payroll_due ex_db \<lparr>year = 2024, month = 3, day = 7\<rparr> ex_admin = Inr [] \<and>
   create_payroll_run ex_db 99 8
       \<lparr> r_as_of = \<lparr>year = 2024, month = 3, day = 7\<rparr>, r_note = None \<rparr> ex_admin
     = Inl (NameError ''worker_id'') \<and>
   payroll_runs (committed ex_db
       (create_payroll_run ex_db 99 8
          \<lparr> r_as_of = \<lparr>year = 2024, month = 3, day = 7\<rparr>, r_note = None \<rparr> ex_admin)) = [] \<and>
   create_payroll_run_in
       \<lparr> g_worker_id = Some 1,
         g_period_start = Some \<lparr>year = 2024, month = 3, day = 1\<rparr>,
         g_period_end = Some \<lparr>year = 2024, month = 3, day = 7\<rparr> \<rparr>
       ex_db 99 8
       \<lparr> r_as_of = \<lparr>year = 2024, month = 3, day = 7\<rparr>, r_note = None \<rparr> ex_admin
     = Inl (AttributeError ''object has no attribute quantize'')"
  by code_simp



end
